theory Spec2Isabelle
  imports Main "HOL-Library.AList"
begin

section \<open>The SD card monitor (src/automon/sd\_monitor.py)\<close>

text \<open>
  The daemon is a single loop over udev notifications. Everything it asks of the operating
  system (sysfs attributes, the mount table, the file system, the external verifier, the
  YAML parser, the password database, process control) is an answer of a \<open>world\<close> value
  that accompanies each notification; everything it does to the outside (printing,
  running the verifier, launching and signalling processes) is an \<open>effect\<close> in a trace.
  Exceptions are values: every function that can raise returns \<open>exn + 'a\<close>.
\<close>

subsection \<open>Python strings\<close>

definition startswith :: "string \<Rightarrow> string \<Rightarrow> bool" where
  \<comment> \<open>\<open>s.startswith(p)\<close>\<close>
  "startswith p s = (take (length p) s = p)"

fun contains_str :: "string \<Rightarrow> string \<Rightarrow> bool" where
  \<comment> \<open>\<open>sub in s\<close> for two strings\<close>
  "contains_str sub [] = (sub = [])"
| "contains_str sub (c # cs) = (startswith sub (c # cs) \<or> contains_str sub cs)"

definition basename :: "string \<Rightarrow> string" where
  \<comment> \<open>\<open>s.split("/")[-1]\<close>\<close>
  "basename s = rev (takeWhile (\<lambda>c. c \<noteq> CHR ''/'') (rev s))"

text \<open>
  A string is the decoded text, a list of code points below 256. The white space of
  \<open>str.strip\<close> and \<open>int\<close> in that range: 9 to 13, 28 to 32, 133 (next line) and 160
  (no-break space).
\<close>

definition is_space :: "char \<Rightarrow> bool" where
  "is_space c = (let n = (of_char c :: nat) in
                   (9 \<le> n \<and> n \<le> 13) \<or> (28 \<le> n \<and> n \<le> 32) \<or> n = 133 \<or> n = 160)"

definition strip :: "string \<Rightarrow> string" where
  \<comment> \<open>\<open>s.strip()\<close>\<close>
  "strip s = rev (dropWhile is_space (rev (dropWhile is_space s)))"

definition is_digit :: "char \<Rightarrow> bool" where
  "is_digit c = (let n = (of_char c :: nat) in 48 \<le> n \<and> n \<le> 57)"

definition digit_val :: "char \<Rightarrow> nat" where
  "digit_val c = (of_char c :: nat) - 48"

fun py_digits :: "nat \<Rightarrow> string \<Rightarrow> nat option" where
  \<comment> \<open>the rest of a decimal literal after a digit; one underscore may separate two digits\<close>
  "py_digits acc [] = Some acc"
| "py_digits acc (c # cs) =
     (if is_digit c then py_digits (10 * acc + digit_val c) cs
      else if c = CHR ''_'' then
        (case cs of
           [] \<Rightarrow> None
         | d # ds \<Rightarrow> if is_digit d then py_digits (10 * acc + digit_val d) ds else None)
      else None)"

definition py_nat :: "string \<Rightarrow> nat option" where
  \<comment> \<open>a decimal literal; more than 4300 digits are refused (the interpreter's limit on
      the conversion of a string to an integer)\<close>
  "py_nat s = (if length (filter is_digit s) > 4300 then None
               else (case s of
                       [] \<Rightarrow> None
                     | c # cs \<Rightarrow> if is_digit c then py_digits (digit_val c) cs else None))"

definition py_int :: "string \<Rightarrow> int option" where
  \<comment> \<open>\<open>int(s)\<close> on a decimal string; \<open>None\<close> is ValueError\<close>
  "py_int s = (case strip s of
                 [] \<Rightarrow> None
               | c # cs \<Rightarrow>
                   if c = CHR ''-'' then map_option (\<lambda>n. - int n) (py_nat cs)
                   else if c = CHR ''+'' then map_option int (py_nat cs)
                   else map_option int (py_nat (c # cs)))"

fun show_nat :: "nat \<Rightarrow> string" where
  \<comment> \<open>\<open>str(n)\<close> for a non-negative integer, as the f-strings print it\<close>
  "show_nat n = (if n < 10 then [char_of (48 + n)]
                 else show_nat (n div 10) @ [char_of (48 + n mod 10)])"

declare show_nat.simps [simp del]

definition path_join :: "string \<Rightarrow> string \<Rightarrow> string" where
  \<comment> \<open>\<open>os.path.join(a, b)\<close> for a relative \<open>b\<close>\<close>
  "path_join a b = (if a = [] \<or> last a = CHR ''/'' then a @ b else a @ ''/'' @ b)"

subsection \<open>Values and the environment\<close>

datatype exn =
    KeyboardInterrupt | OSError | CalledProcessError | YAMLError | KeyError
  | TypeError | AttributeError | ProcessLookupError | PermissionError

datatype signal = SIGTERM | SIGKILL

text \<open>What \<open>yaml.safe_load\<close> can return (floats, dates and binary scalars left out).\<close>

datatype yaml =
    YNull | YBool bool | YInt int | YStr string
  | YSeq "yaml list" | YMap "(yaml \<times> yaml) list"

datatype run_result = Exit int | CannotRun

record passwd =
  pw_uid :: nat
  pw_gid :: nat
  pw_dir :: string

record device =
  device_node :: "string option"
  device_type :: "string option"
  action :: string
  properties :: "(string \<times> string) list"

text \<open>
  The answers of the operating system while one notification is handled. \<open>None\<close> from a
  read is IOError/OSError. \<open>listdir\<close> and \<open>mounts\<close> take the number of the poll
  iteration of \<open>get_mount_point\<close>, since the mount table changes while the daemon waits.
  \<open>open_rb\<close> is what the first open of a file (binary, piped to the verifier) reads and
  \<open>open_r\<close> what the second open (text, given to the YAML parser) reads.
\<close>

record world =
  read_file :: "string \<Rightarrow> string option"
  listdir :: "nat \<Rightarrow> string \<Rightarrow> string list option"
  mounts :: "nat \<Rightarrow> (string \<times> string) list option"
  path_exists :: "string \<Rightarrow> bool"
  open_rb :: "string \<Rightarrow> string option"
  ssh_keygen :: "string list \<Rightarrow> string \<Rightarrow> run_result"
  open_r :: "string \<Rightarrow> string option"
  safe_load :: "string \<Rightarrow> yaml option"
  getpwnam :: "string \<Rightarrow> passwd option"
  environ :: "(string \<times> string) list"
  display_env :: "nat \<Rightarrow> (string \<times> string) list"
  popen :: "exn + nat"
  poll :: "nat \<Rightarrow> int option"
  getpgid :: "nat \<Rightarrow> exn + nat"
  killpg :: "nat \<Rightarrow> signal \<Rightarrow> exn option"
  wait :: "nat \<Rightarrow> nat \<Rightarrow> bool"

datatype effect =
    Print string
  | PrintExecuting "string option" yaml
  | CheckCall "string list" string
  | Popen yaml string "(nat \<times> nat) option" "(string \<times> string) list"
  | Killpg nat signal
  | Wait nat nat

fun is_popen :: "effect \<Rightarrow> bool" where
  "is_popen (Popen script cwd ident env) = True"
| "is_popen e = False"

fun is_killpg :: "effect \<Rightarrow> bool" where
  "is_killpg (Killpg pgid sig) = True"
| "is_killpg e = False"

definition TRUSTED_PUBKEY :: string where
  "TRUSTED_PUBKEY = ''/etc/cart_trust/allowed_signers''"

definition SIGNATURE_NAMESPACE :: string where
  "SIGNATURE_NAMESPACE = ''cart''"

subsection \<open>Media classification\<close>

definition is_sd_card :: "world \<Rightarrow> device \<Rightarrow> bool" where
  "is_sd_card w d =
     (case device_node d of
        None \<Rightarrow> False
      | Some node \<Rightarrow>
          if node = [] \<or> device_type d \<noteq> Some ''disk'' then False
          else if contains_str ''mmcblk'' node then True
          else if startswith ''/dev/sd'' node then
            (if map_of (properties d) ''ID_BUS'' = Some ''usb'' then True
             else if map_of (properties d) ''DEVTYPE'' = Some ''disk'' then
               (case read_file w (''/sys/block/'' @ basename node @ ''/removable'') of
                  None \<Rightarrow> False
                | Some s \<Rightarrow> strip s = ''1'')
             else False)
          else False)"

definition truthy_prop :: "device \<Rightarrow> string \<Rightarrow> bool" where
  \<comment> \<open>\<open>if device.properties.get(k)\<close>: present and not empty\<close>
  "truthy_prop d k = (case map_of (properties d) k of None \<Rightarrow> False | Some v \<Rightarrow> v \<noteq> [])"

definition has_media :: "world \<Rightarrow> device \<Rightarrow> exn + bool" where
  "has_media w d =
     (if truthy_prop d ''ID_PART_TABLE_TYPE'' then Inr True
      else if truthy_prop d ''ID_FS_TYPE'' then Inr True
      else (case device_node d of
              None \<Rightarrow> Inl AttributeError
            | Some node \<Rightarrow>
                (case read_file w (''/sys/block/'' @ basename node @ ''/size'') of
                   None \<Rightarrow> Inr False
                 | Some s \<Rightarrow>
                     (case py_int (strip s) of
                        None \<Rightarrow> Inr False
                      | Some n \<Rightarrow> Inr (n > 0)))))"

subsection \<open>Mount resolution\<close>

text \<open>
  \<open>get_mount_point\<close> polls \<open>timeout * 2\<close> times. The list \<open>partitions\<close> is created once,
  before the loop, so it accumulates over the iterations. A line of /proc/mounts is its
  first two fields (device, mount path). The half-second sleeps are not recorded.
\<close>

definition find_mounted :: "string list \<Rightarrow> (string \<times> string) list \<Rightarrow> string option" where
  \<comment> \<open>the first line of the mount table whose device is among the candidates\<close>
  "find_mounted partitions ls =
     (case filter (\<lambda>l. fst l \<in> set partitions) ls of [] \<Rightarrow> None | l # _ \<Rightarrow> Some (snd l))"

fun mount_loop :: "world \<Rightarrow> string \<Rightarrow> string list \<Rightarrow> nat \<Rightarrow> nat \<Rightarrow> string option" where
  "mount_loop w node partitions i 0 = None"
| "mount_loop w node partitions i (Suc k) =
     (let dev_name = basename node;
          found = (case listdir w i (''/sys/block/'' @ dev_name) of
                     None \<Rightarrow> []
                   | Some es \<Rightarrow> map (\<lambda>e. ''/dev/'' @ e) (filter (startswith dev_name) es));
          partitions1 = partitions @ found;
          partitions2 = (if partitions1 = [] then [node] else partitions1)
      in case (case mounts w i of None \<Rightarrow> None | Some ls \<Rightarrow> find_mounted partitions2 ls) of
           Some mp \<Rightarrow> Some mp
         | None \<Rightarrow> mount_loop w node partitions2 (Suc i) k)"

definition get_mount_point :: "world \<Rightarrow> string \<Rightarrow> nat \<Rightarrow> string option" where
  "get_mount_point w node timeout = mount_loop w node [] 0 (timeout * 2)"

subsection \<open>Signature verification\<close>

definition verify_argv :: "string \<Rightarrow> string list" where
  "verify_argv sig_path =
     [''ssh-keygen'', ''-Y'', ''verify'', ''-f'', TRUSTED_PUBKEY, ''-I'', SIGNATURE_NAMESPACE,
      ''-n'', SIGNATURE_NAMESPACE, ''-s'', sig_path, ''-'']"

text \<open>
  \<open>subprocess.check_call\<close> returns on exit status 0, raises CalledProcessError on any other
  status (a verifier killed by a signal has a negative status) and raises OSError when the
  program cannot be started. Only CalledProcessError is caught.
\<close>

definition verify_cart_signature :: "world \<Rightarrow> string \<Rightarrow> effect list \<times> (exn + bool)" where
  "verify_cart_signature w cart_path =
     (let sig_path = cart_path @ ''.sig'' in
      if \<not> path_exists w sig_path then ([Print ''ERROR: cart.yaml.sig missing''], Inr False)
      else if \<not> path_exists w TRUSTED_PUBKEY then
        ([Print ''ERROR: Trusted public key missing''], Inr False)
      else
        (case open_rb w cart_path of
           None \<Rightarrow> ([], Inl OSError)
         | Some bytes \<Rightarrow>
             (case ssh_keygen w (verify_argv sig_path) bytes of
                CannotRun \<Rightarrow> ([CheckCall (verify_argv sig_path) bytes], Inl OSError)
              | Exit rc \<Rightarrow>
                  if rc = 0 then
                    ([CheckCall (verify_argv sig_path) bytes,
                      Print ''Signature verification OK''], Inr True)
                  else
                    ([CheckCall (verify_argv sig_path) bytes,
                      Print ''ERROR: Signature verification FAILED''], Inr False))))"

subsection \<open>Starting the payload\<close>

fun truthy :: "yaml \<Rightarrow> bool" where
  \<comment> \<open>\<open>bool(config)\<close>\<close>
  "truthy YNull = False"
| "truthy (YBool b) = b"
| "truthy (YInt i) = (i \<noteq> 0)"
| "truthy (YStr s) = (s \<noteq> [])"
| "truthy (YSeq xs) = (xs \<noteq> [])"
| "truthy (YMap m) = (m \<noteq> [])"

fun in_config :: "string \<Rightarrow> yaml \<Rightarrow> exn + bool" where
  \<comment> \<open>\<open>k in config\<close> for a string \<open>k\<close>\<close>
  "in_config k (YMap m) = Inr (map_of m (YStr k) \<noteq> None)"
| "in_config k (YSeq xs) = Inr (List.member xs (YStr k))"
| "in_config k (YStr s) = Inr (contains_str k s)"
| "in_config k y = Inl TypeError"

fun getitem :: "yaml \<Rightarrow> string \<Rightarrow> exn + yaml" where
  \<comment> \<open>\<open>config[k]\<close> for a string \<open>k\<close>\<close>
  "getitem (YMap m) k = (case map_of m (YStr k) of None \<Rightarrow> Inl KeyError | Some v \<Rightarrow> Inr v)"
| "getitem y k = Inl TypeError"

definition truthy_user :: "string option \<Rightarrow> string option" where
  \<comment> \<open>\<open>if run_as_user\<close>: neither None nor the empty string\<close>
  "truthy_user u = (case u of None \<Rightarrow> None | Some n \<Rightarrow> if n = [] then None else Some n)"

definition user_env ::
  "world \<Rightarrow> string \<Rightarrow> passwd \<Rightarrow> (string \<times> string) list" where
  "user_env w name pw =
     fold (\<lambda>kv. AList.update (fst kv) (snd kv)) (display_env w (pw_uid pw))
       (AList.update ''XDG_RUNTIME_DIR'' (''/run/user/'' @ show_nat (pw_uid pw))
         (AList.update ''LOGNAME'' name
           (AList.update ''USER'' name
             (AList.update ''HOME'' (pw_dir pw) (environ w)))))"

definition popen_result :: "world \<Rightarrow> exn + nat option" where
  "popen_result w = (case popen w of Inl e \<Rightarrow> Inl e | Inr pid \<Rightarrow> Inr (Some pid))"

definition launch ::
  "world \<Rightarrow> string \<Rightarrow> string option \<Rightarrow> yaml \<Rightarrow> effect list \<times> (exn + nat option)" where
  \<comment> \<open>lines 187 to 214: the identity switch and \<open>subprocess.Popen\<close>\<close>
  "launch w mount_point run_as_user script =
     (case truthy_user run_as_user of
        None \<Rightarrow>
          ([PrintExecuting None script, Popen script mount_point None (environ w)],
           popen_result w)
      | Some name \<Rightarrow>
          (case getpwnam w name of
             None \<Rightarrow> ([], Inl KeyError)
           | Some pw \<Rightarrow>
               ([PrintExecuting (Some name) script,
                 Popen script mount_point (Some (pw_uid pw, pw_gid pw)) (user_env w name pw)],
                popen_result w)))"

definition no_exec_msg :: string where
  "no_exec_msg = ''No '' @ [CHR 0x27] @ ''exec'' @ [CHR 0x27] @ '' field in cart.yaml''"

definition start_cart_process ::
  "world \<Rightarrow> string \<Rightarrow> string option \<Rightarrow> effect list \<times> (exn + nat option)" where
  "start_cart_process w mount_point run_as_user =
     (let cart_path = path_join mount_point ''cart.yaml'' in
      if \<not> path_exists w cart_path then ([Print ''No cart.yaml detected''], Inr None)
      else
        (let found = Print (''Found cart.yaml at '' @ cart_path) in
         case verify_cart_signature w cart_path of
           (es, Inl e) \<Rightarrow> (found # es, Inl e)
         | (es, Inr trusted) \<Rightarrow>
             if \<not> trusted then
               (found # es @ [Print ''Execution blocked (untrusted cart)''], Inr None)
             else
               (case open_r w cart_path of
                  None \<Rightarrow> (found # es, Inl OSError)
                | Some text \<Rightarrow>
                    (case safe_load w text of
                       None \<Rightarrow> (found # es, Inl YAMLError)
                     | Some config \<Rightarrow>
                         if \<not> truthy config then (found # es @ [Print no_exec_msg], Inr None)
                         else
                           (case in_config ''exec'' config of
                              Inl e \<Rightarrow> (found # es, Inl e)
                            | Inr present \<Rightarrow>
                                if \<not> present then
                                  (found # es @ [Print no_exec_msg], Inr None)
                                else
                                  (case getitem config ''exec'' of
                                     Inl e \<Rightarrow> (found # es, Inl e)
                                   | Inr script \<Rightarrow>
                                       (case launch w mount_point run_as_user script of
                                          (ls, r) \<Rightarrow> (found # es @ ls, r))))))))"

subsection \<open>Stopping the payload\<close>

definition kill_cart_process :: "world \<Rightarrow> nat \<Rightarrow> effect list \<times> exn option" where
  "kill_cart_process w pid =
     (case poll w pid of
        Some rc \<Rightarrow> ([], None)
      | None \<Rightarrow>
          (case getpgid w pid of
             Inl e \<Rightarrow> ([], Some e)
           | Inr pgid \<Rightarrow>
               (let pre = [Print (''Killing process group '' @ show_nat pgid),
                           Killpg pgid SIGTERM] in
                case killpg w pgid SIGTERM of
                  Some e \<Rightarrow> if e = ProcessLookupError then (pre, None) else (pre, Some e)
                | None \<Rightarrow>
                    if wait w pid 3 then (pre @ [Wait pid 3], None)
                    else (pre @ [Wait pid 3, Killpg pgid SIGKILL], killpg w pgid SIGKILL))))"

subsection \<open>The event loop\<close>

record state =
  last_event :: "(string \<times> string) option"
  running_processes :: "(string \<times> nat) list"

text \<open>
  What \<open>monitor.poll\<close> does next: it returns a device, or it raises (KeyboardInterrupt on
  the interrupt signal, an OSError of the notification bus). Both come with the answers of
  the operating system at that moment. A list of inputs is a finite prefix of what the
  daemon receives; at its end the loop is \<open>Waiting\<close> for the next notification.
\<close>

datatype input = Notify device world | PollRaises exn world

datatype outcome = Waiting | Returned | Raised exn

definition classify :: "world \<Rightarrow> device \<Rightarrow> exn + (string \<times> string) option" where
  \<comment> \<open>lines 246 to 256; \<open>Inr None\<close> is \<open>continue\<close>\<close>
  "classify w d =
     (case device_node d of
        None \<Rightarrow> Inr None
      | Some node \<Rightarrow>
          if \<not> is_sd_card w d then Inr None
          else if action d = ''add'' then Inr (Some (''insert'', node))
          else if action d = ''remove'' then Inr (Some (''remove'', node))
          else if action d = ''change'' then
            (case has_media w d of
               Inl e \<Rightarrow> Inl e
             | Inr m \<Rightarrow> Inr (Some (if m then ''insert'' else ''remove'', node)))
          else Inr None)"

definition handle_event ::
  "string option \<Rightarrow> world \<Rightarrow> state \<Rightarrow> string \<times> string \<Rightarrow> effect list \<times> state \<times> exn option" where
  \<comment> \<open>lines 258 to 277\<close>
  "handle_event run_as_user w s event =
     (if Some event = last_event s then ([], s, None)
      else
        (let s1 = s\<lparr>last_event := Some event\<rparr>; node = snd event in
         if fst event = ''insert'' then
           (let inserted = Print (''SD card inserted: '' @ node) in
            case get_mount_point w node 5 of
              None \<Rightarrow> ([inserted, Print ''Card not mounted''], s1, None)
            | Some mount_point \<Rightarrow>
                if mount_point = [] then ([inserted, Print ''Card not mounted''], s1, None)
                else
                  (case start_cart_process w mount_point run_as_user of
                     (es, Inl e) \<Rightarrow> (inserted # es, s1, Some e)
                   | (es, Inr None) \<Rightarrow> (inserted # es, s1, None)
                   | (es, Inr (Some proc)) \<Rightarrow>
                       (inserted # es,
                        s1\<lparr>running_processes := AList.update node proc (running_processes s1)\<rparr>,
                        None)))
         else
           (let removed = Print (''SD card removed: '' @ node) in
            case map_of (running_processes s1) node of
              None \<Rightarrow> ([removed], s1, None)
            | Some proc \<Rightarrow>
                (case kill_cart_process w proc of
                   (es, r) \<Rightarrow>
                     (removed # es,
                      s1\<lparr>running_processes := AList.delete node (running_processes s1)\<rparr>,
                      r)))))"

definition step ::
  "string option \<Rightarrow> state \<Rightarrow> device \<Rightarrow> world \<Rightarrow> effect list \<times> state \<times> exn option" where
  \<comment> \<open>one iteration of the \<open>for\<close> loop\<close>
  "step run_as_user s d w =
     (case classify w d of
        Inl e \<Rightarrow> ([], s, Some e)
      | Inr None \<Rightarrow> ([], s, None)
      | Inr (Some event) \<Rightarrow> handle_event run_as_user w s event)"

fun kill_all :: "world \<Rightarrow> nat list \<Rightarrow> effect list \<times> exn option" where
  \<comment> \<open>\<open>for proc in running_processes.values(): kill_cart_process(proc)\<close>\<close>
  "kill_all w [] = ([], None)"
| "kill_all w (p # ps) =
     (case kill_cart_process w p of
        (es, Some e) \<Rightarrow> (es, Some e)
      | (es, None) \<Rightarrow> (case kill_all w ps of (es', r) \<Rightarrow> (es @ es', r)))"

definition on_exception :: "world \<Rightarrow> state \<Rightarrow> exn \<Rightarrow> effect list \<times> outcome" where
  \<comment> \<open>the only handler of the loop: \<open>except KeyboardInterrupt\<close>\<close>
  "on_exception w s e =
     (if e = KeyboardInterrupt then
        (case kill_all w (map snd (running_processes s)) of
           (es, Some e') \<Rightarrow> (Print (CHR 0x0A # ''Stopping...'') # es, Raised e')
         | (es, None) \<Rightarrow>
             (Print (CHR 0x0A # ''Stopping...'') # es @ [Print ''Stopped.''], Returned))
      else ([], Raised e))"

fun run_loop :: "string option \<Rightarrow> state \<Rightarrow> input list \<Rightarrow> effect list \<times> state \<times> outcome" where
  "run_loop run_as_user s [] = ([], s, Waiting)"
| "run_loop run_as_user s (PollRaises e w # rest) =
     (case on_exception w s e of (es, r) \<Rightarrow> (es, s, r))"
| "run_loop run_as_user s (Notify d w # rest) =
     (case step run_as_user s d w of
        (es, s', Some e) \<Rightarrow> (case on_exception w s' e of (es', r) \<Rightarrow> (es @ es', s', r))
      | (es, s', None) \<Rightarrow>
          (case run_loop run_as_user s' rest of (es', s'', r) \<Rightarrow> (es @ es', s'', r)))"

definition monitor :: "string option \<Rightarrow> input list \<Rightarrow> effect list \<times> state \<times> outcome" where
  "monitor run_as_user inputs =
     (let banner = Print ''Monitoring for SD cards... (Ctrl+C to exit)'' #
                   (case truthy_user run_as_user of
                      None \<Rightarrow> []
                    | Some name \<Rightarrow> [Print (''Exec commands will run as: '' @ name)])
      in case run_loop run_as_user \<lparr>last_event = None, running_processes = []\<rparr> inputs of
           (es, s, r) \<Rightarrow> (banner @ es, s, r))"

definition exit_status :: "outcome \<Rightarrow> nat option" where
  \<comment> \<open>the status of the interpreter: 0 when \<open>monitor\<close> returns, not 0 on an uncaught exception\<close>
  "exit_status r = (case r of Waiting \<Rightarrow> None | Returned \<Rightarrow> Some 0 | Raised e \<Rightarrow> Some 1)"

subsection \<open>Concrete devices and environments\<close>

definition dev_sda :: device where
  "dev_sda = \<lparr>device_node = Some ''/dev/sda'', device_type = Some ''disk'', action = ''add'',
               properties = [(''ID_BUS'', ''usb'')]\<rparr>"

definition dev_sdb :: device where
  "dev_sdb = \<lparr>device_node = Some ''/dev/sdb'', device_type = Some ''disk'', action = ''add'',
               properties = [(''ID_BUS'', ''usb'')]\<rparr>"

definition dev_sda_change :: device where
  "dev_sda_change = \<lparr>device_node = Some ''/dev/sda'', device_type = Some ''disk'',
                      action = ''change'',
                      properties = [(''ID_BUS'', ''usb''), (''ID_FS_TYPE'', ''vfat'')]\<rparr>"

definition dev_sda_remove :: device where
  "dev_sda_remove = \<lparr>device_node = Some ''/dev/sda'', device_type = Some ''disk'',
                      action = ''remove'', properties = [(''ID_BUS'', ''usb'')]\<rparr>"

definition pi_user :: passwd where
  "pi_user = \<lparr>pw_uid = 1000, pw_gid = 1000, pw_dir = ''/home/pi''\<rparr>"

text \<open>
  An environment in which both cards are mounted and carry a manifest \<open>exec: run.sh\<close> with
  a signature the verifier accepts; the verifier rejects any other content.
\<close>

definition good_world :: world where
  "good_world =
     \<lparr>read_file = (\<lambda>p. None),
      listdir = (\<lambda>i p. Some []),
      mounts = (\<lambda>i. Some [(''/dev/sda'', ''/mnt/a''), (''/dev/sdb'', ''/mnt/b'')]),
      path_exists = (\<lambda>p. True),
      open_rb = (\<lambda>p. Some ''exec: run.sh''),
      ssh_keygen = (\<lambda>argv stdin. if stdin = ''exec: run.sh'' then Exit 0 else Exit 255),
      open_r = (\<lambda>p. Some ''exec: run.sh''),
      safe_load = (\<lambda>t. if t = ''exec: run.sh'' then Some (YMap [(YStr ''exec'', YStr ''run.sh'')])
                       else if t = ''exec: evil.sh''
                       then Some (YMap [(YStr ''exec'', YStr ''evil.sh'')])
                       else if t = ''title: demo'' then Some (YMap [(YStr ''title'', YStr ''demo'')])
                       else None),
      getpwnam = (\<lambda>n. if n = ''pi'' then Some pi_user else None),
      environ = [(''PATH'', ''/usr/bin'')],
      display_env = (\<lambda>uid. [(''DISPLAY'', '':0'')]),
      popen = Inr 101,
      poll = (\<lambda>pid. None),
      getpgid = (\<lambda>pid. Inr pid),
      killpg = (\<lambda>pgid sig. None),
      wait = (\<lambda>pid t. True)\<rparr>"

text \<open>The same environment without the detached signature of the first card.\<close>

definition unsigned_world :: world where
  "unsigned_world = good_world\<lparr>path_exists := (\<lambda>p. p \<noteq> ''/mnt/a/cart.yaml.sig'')\<rparr>"

definition remove_untracked :: "state \<Rightarrow> bool" where
  "remove_untracked s =
     (case last_event s of
        None \<Rightarrow> True
      | Some ev \<Rightarrow> if fst ev = ''remove'' then map_of (running_processes s) (snd ev) = None
                   else True)"

definition tracked_sda :: state where
  "tracked_sda = \<lparr>last_event = Some (''insert'', ''/dev/sda''),
                   running_processes = [(''/dev/sda'', 101)]\<rparr>"

definition slow_exit_world :: world where
  "slow_exit_world = good_world\<lparr>wait := (\<lambda>pid t. False)\<rparr>"

definition gone_world :: world where
  "gone_world = good_world\<lparr>killpg := (\<lambda>pgid sig. Some ProcessLookupError)\<rparr>"

text \<open>The shell of the payload has exited (status 0); its process group is still there.\<close>

definition exited_shell_world :: world where
  "exited_shell_world = good_world\<lparr>poll := (\<lambda>pid. Some 0)\<rparr>"

definition dev_sda1 :: device where
  "dev_sda1 = \<lparr>device_node = Some ''/dev/sda1'', device_type = Some ''partition'',
                action = ''add'', properties = [(''ID_BUS'', ''usb'')]\<rparr>"

definition dev_sda_empty_change :: device where
  "dev_sda_empty_change = \<lparr>device_node = Some ''/dev/sda'', device_type = Some ''disk'',
                            action = ''change'', properties = [(''ID_BUS'', ''usb'')]\<rparr>"

definition dev_sda_bind :: device where
  "dev_sda_bind = \<lparr>device_node = Some ''/dev/sda'', device_type = Some ''disk'',
                    action = ''bind'', properties = [(''ID_BUS'', ''usb'')]\<rparr>"

definition empty_slot_world :: world where
  "empty_slot_world =
     good_world\<lparr>read_file := (\<lambda>p. if p = ''/sys/block/sda/size'' then Some (''0'' @ [CHR 0x0A])
                                  else None)\<rparr>"

fun is_check_call :: "effect \<Rightarrow> bool" where
  "is_check_call (CheckCall argv stdin) = True"
| "is_check_call e = False"

definition swapped_world :: world where
  "swapped_world = good_world\<lparr>open_r := (\<lambda>p. Some ''exec: evil.sh'')\<rparr>"

definition no_verifier_world :: world where
  "no_verifier_world = good_world\<lparr>ssh_keygen := (\<lambda>argv stdin. CannotRun)\<rparr>"

text \<open>A card whose signed manifest is not valid YAML, and one whose signed manifest has no \<open>exec\<close>.\<close>

definition bad_yaml_world :: world where
  "bad_yaml_world =
     good_world\<lparr>open_rb := (\<lambda>p. Some ''exec: [''),
                open_r := (\<lambda>p. Some ''exec: [''),
                ssh_keygen := (\<lambda>argv stdin. if stdin = ''exec: ['' then Exit 0 else Exit 255)\<rparr>"

definition no_exec_world :: world where
  "no_exec_world =
     good_world\<lparr>open_rb := (\<lambda>p. Some ''title: demo''),
                open_r := (\<lambda>p. Some ''title: demo''),
                ssh_keygen := (\<lambda>argv stdin. if stdin = ''title: demo'' then Exit 0
                                           else Exit 255)\<rparr>"

definition no_cart_world :: world where
  "no_cart_world = good_world\<lparr>path_exists := (\<lambda>p. p \<noteq> ''/mnt/a/cart.yaml'')\<rparr>"

definition reinsert_inputs :: "input list" where
  "reinsert_inputs =
     [Notify dev_sda good_world,
      Notify dev_sdb (good_world\<lparr>popen := Inr 102\<rparr>),
      Notify dev_sda_change (good_world\<lparr>popen := Inr 103\<rparr>)]"

fun is_sigterm :: "effect \<Rightarrow> bool" where
  "is_sigterm (Killpg pgid SIGTERM) = True"
| "is_sigterm e = False"

section \<open>Properties\<close>

subsection \<open>Signature-gated execution\<close>

lemma verify_effects_no_popen:
  "\<not> list_ex is_popen (fst (verify_cart_signature w p))"
  by (simp add: verify_cart_signature_def Let_def split: option.split run_result.split)

lemma verify_untrusted:
  assumes "\<not> path_exists w (p @ ''.sig'') \<or> \<not> path_exists w TRUSTED_PUBKEY \<or>
     (\<exists>bytes rc. open_rb w p = Some bytes \<and>
        ssh_keygen w (verify_argv (p @ ''.sig'')) bytes = Exit rc \<and> rc \<noteq> 0)"
  shows "snd (verify_cart_signature w p) = Inr False"
  using assms by (auto simp add: verify_cart_signature_def Let_def)

lemma start_untrusted:
  assumes "snd (verify_cart_signature w (path_join mp ''cart.yaml'')) = Inr False"
  shows "snd (start_cart_process w mp u) = Inr None"
    and "\<not> list_ex is_popen (fst (start_cart_process w mp u))"
  using assms verify_effects_no_popen [of w "path_join mp ''cart.yaml''"]
  by (auto simp add: start_cart_process_def Let_def split: prod.split sum.split)

lemma start_popen_trusted:
  assumes "list_ex is_popen (fst (start_cart_process w mp u))"
  shows "snd (verify_cart_signature w (path_join mp ''cart.yaml'')) = Inr True"
proof (cases "verify_cart_signature w (path_join mp ''cart.yaml'')")
  case (Pair es r)
  have np: "\<not> list_ex is_popen es"
    using verify_effects_no_popen [of w "path_join mp ''cart.yaml''"] Pair by simp
  show ?thesis
  proof (cases r)
    case (Inl e)
    with Pair np assms show ?thesis
      by (simp add: start_cart_process_def Let_def split: if_splits)
  next
    case (Inr b)
    with Pair np assms show ?thesis
      by (cases b) (simp_all add: start_cart_process_def Let_def split: if_splits)
  qed
qed

lemma kill_effects_no_popen:
  "kill_cart_process w p = (es, r) \<Longrightarrow> \<not> list_ex is_popen es"
  by (auto simp add: kill_cart_process_def Let_def split: option.splits sum.splits if_splits)

lemma handle_event_popen_from_start:
  assumes "list_ex is_popen (fst (handle_event u w s ev))"
  shows "\<exists>mp. get_mount_point w (snd ev) 5 = Some mp \<and>
           list_ex is_popen (fst (start_cart_process w mp u))"
  using assms
  by (auto simp add: handle_event_def Let_def dest: kill_effects_no_popen
      split: if_splits option.splits prod.splits sum.splits)

lemma classify_node:
  "classify w d = Inr (Some ev) \<Longrightarrow> device_node d = Some (snd ev)"
  by (auto simp add: classify_def split: option.splits if_splits sum.splits)

lemma step_popen_from_start:
  assumes "list_ex is_popen (fst (step u s d w))"
  shows "\<exists>node mp. device_node d = Some node \<and> get_mount_point w node 5 = Some mp \<and>
           list_ex is_popen (fst (start_cart_process w mp u))"
proof -
  from assms obtain ev where c: "classify w d = Inr (Some ev)"
    and h: "list_ex is_popen (fst (handle_event u w s ev))"
    by (auto simp add: step_def split: sum.splits option.splits)
  from handle_event_popen_from_start [OF h] classify_node [OF c] show ?thesis by blast
qed

text \<open>
  C1: a payload process is launched only after signature verification returned the trusted
  verdict. If the signature file is missing, the trusted-signer store is missing, or the
  verifier exits with a status other than 0 for the manifest at the mount point,
  \<open>start_cart_process\<close> returns \<open>None\<close> and its effects contain no \<open>Popen\<close>; any
  \<open>Popen\<close> among the effects of \<open>start_cart_process\<close>, or of a whole iteration of the
  loop, implies that \<open>verify_cart_signature\<close> returned \<open>True\<close> for the manifest at the
  resolved mount point.
\<close>

theorem spawn_only_after_trusted_verdict:
  "((\<not> path_exists w (path_join mp ''cart.yaml'' @ ''.sig'') \<or>
     \<not> path_exists w TRUSTED_PUBKEY \<or>
     (\<exists>bytes rc. open_rb w (path_join mp ''cart.yaml'') = Some bytes \<and>
        ssh_keygen w (verify_argv (path_join mp ''cart.yaml'' @ ''.sig'')) bytes = Exit rc \<and>
        rc \<noteq> 0)) \<longrightarrow>
      snd (start_cart_process w mp u) = Inr None \<and>
      \<not> list_ex is_popen (fst (start_cart_process w mp u))) \<and>
   (list_ex is_popen (fst (start_cart_process w mp u)) \<longrightarrow>
      snd (verify_cart_signature w (path_join mp ''cart.yaml'')) = Inr True) \<and>
   (list_ex is_popen (fst (step u2 s d w2)) \<longrightarrow>
      (\<exists>node m. device_node d = Some node \<and> get_mount_point w2 node 5 = Some m \<and>
         snd (verify_cart_signature w2 (path_join m ''cart.yaml'')) = Inr True))"
proof (intro conjI impI)
  assume a: "\<not> path_exists w (path_join mp ''cart.yaml'' @ ''.sig'') \<or>
     \<not> path_exists w TRUSTED_PUBKEY \<or>
     (\<exists>bytes rc. open_rb w (path_join mp ''cart.yaml'') = Some bytes \<and>
        ssh_keygen w (verify_argv (path_join mp ''cart.yaml'' @ ''.sig'')) bytes = Exit rc \<and>
        rc \<noteq> 0)"
  from start_untrusted [OF verify_untrusted [OF a]]
  show "snd (start_cart_process w mp u) = Inr None"
    and "\<not> list_ex is_popen (fst (start_cart_process w mp u))" by simp_all
next
  assume "list_ex is_popen (fst (start_cart_process w mp u))"
  then show "snd (verify_cart_signature w (path_join mp ''cart.yaml'')) = Inr True"
    by (rule start_popen_trusted)
next
  assume "list_ex is_popen (fst (step u2 s d w2))"
  from step_popen_from_start [OF this] start_popen_trusted
  show "\<exists>node m. device_node d = Some node \<and> get_mount_point w2 node 5 = Some m \<and>
         snd (verify_cart_signature w2 (path_join m ''cart.yaml'')) = Inr True"
    by blast
qed

theorem spawn_only_after_trusted_verdict_witness:
  "\<not> path_exists unsigned_world (path_join ''/mnt/a'' ''cart.yaml'' @ ''.sig'') \<and>
   snd (start_cart_process unsigned_world ''/mnt/a'' None) = Inr None \<and>
   \<not> list_ex is_popen (fst (start_cart_process unsigned_world ''/mnt/a'' None)) \<and>
   list_ex is_popen (fst (step None \<lparr>last_event = None, running_processes = []\<rparr> dev_sda good_world)) \<and>
   snd (verify_cart_signature good_world (path_join ''/mnt/a'' ''cart.yaml'')) = Inr True"
proof -
  have a: "\<not> path_exists unsigned_world (path_join ''/mnt/a'' ''cart.yaml'' @ ''.sig'')"
    by (simp add: unsigned_world_def path_join_def)
  have b: "list_ex is_popen (fst (step None \<lparr>last_event = None, running_processes = []\<rparr> dev_sda good_world))"
    by code_simp
  have c: "get_mount_point good_world ''/dev/sda'' 5 = Some ''/mnt/a''" by code_simp
  have d: "device_node dev_sda = Some ''/dev/sda''" by (simp add: dev_sda_def)
  from spawn_only_after_trusted_verdict [where w = unsigned_world and mp = "''/mnt/a''" and u = None
      and ?u2.0 = None and s = "\<lparr>last_event = None, running_processes = []\<rparr>"
      and d = dev_sda and ?w2.0 = good_world] a b c d
  show ?thesis by auto
qed

subsection \<open>Removal\<close>

lemma map_of_delete_same: "map_of (AList.delete k al) k = None"
  by (simp add: delete_conv)

lemma handle_event_duplicate:
  "last_event s = Some ev \<Longrightarrow> handle_event u w s ev = ([], s, None)"
  by (simp add: handle_event_def)

lemma handle_event_insert_state:
  assumes "Some ev \<noteq> last_event s" and "fst ev = ''insert''"
    and "handle_event u w s ev = (es, s', r)"
  shows "last_event s' = Some ev"
proof (cases "get_mount_point w (snd ev) 5")
  case None
  with assms show ?thesis by (auto simp add: handle_event_def Let_def)
next
  case (Some mp)
  obtain ses sr where st: "start_cart_process w mp u = (ses, sr)"
    by (cases "start_cart_process w mp u") auto
  with Some assms show ?thesis
    by (cases sr; cases "mp = []")
       (auto simp add: handle_event_def Let_def split: option.splits)
qed

lemma handle_event_remove_state:
  assumes "Some ev \<noteq> last_event s" and "fst ev \<noteq> ''insert''"
    and "handle_event u w s ev = (es, s', r)"
  shows "last_event s' = Some ev \<and> map_of (running_processes s') (snd ev) = None"
proof (cases "map_of (running_processes s) (snd ev)")
  case None
  with assms show ?thesis by (auto simp add: handle_event_def Let_def)
next
  case (Some pid)
  obtain kes kr where "kill_cart_process w pid = (kes, kr)"
    by (cases "kill_cart_process w pid") auto
  with Some assms show ?thesis
    by (auto simp add: handle_event_def Let_def map_of_delete_same)
qed

lemma handle_event_remove_untracked:
  assumes "remove_untracked s" and "handle_event u w s ev = (es, s', r)"
  shows "remove_untracked s'"
proof (cases "Some ev = last_event s")
  case True
  with assms handle_event_duplicate [of s ev u w] show ?thesis by simp
next
  case False
  show ?thesis
  proof (cases "fst ev = ''insert''")
    case True
    from handle_event_insert_state [OF False True assms(2)] True
    show ?thesis by (simp add: remove_untracked_def)
  next
    case ni: False
    from handle_event_remove_state [OF False ni assms(2)]
    show ?thesis by (simp add: remove_untracked_def)
  qed
qed

lemma step_remove_untracked:
  assumes "remove_untracked s" and "step u s d w = (es, s', r)"
  shows "remove_untracked s'"
proof (cases "classify w d")
  case (Inl e)
  with assms show ?thesis by (simp add: step_def)
next
  case (Inr c)
  show ?thesis
  proof (cases c)
    case None
    with Inr assms show ?thesis by (simp add: step_def)
  next
    case (Some ev)
    with Inr assms have "handle_event u w s ev = (es, s', r)" by (simp add: step_def)
    from handle_event_remove_untracked [OF assms(1) this] show ?thesis .
  qed
qed

lemma run_loop_remove_untracked:
  "remove_untracked s \<Longrightarrow> run_loop u s ins = (es, s', r) \<Longrightarrow> remove_untracked s'"
proof (induction ins arbitrary: s es s' r)
  case Nil
  then show ?case by simp
next
  case (Cons i ins)
  show ?case
  proof (cases i)
    case (PollRaises e w)
    with Cons.prems show ?thesis by (auto split: prod.splits)
  next
    case (Notify d w)
    obtain es1 s1 r1 where st: "step u s d w = (es1, s1, r1)" by (cases "step u s d w") auto
    have inv1: "remove_untracked s1" using step_remove_untracked [OF Cons.prems(1) st] .
    show ?thesis
    proof (cases r1)
      case None
      obtain es2 s2 r2 where rl: "run_loop u s1 ins = (es2, s2, r2)"
        by (cases "run_loop u s1 ins") auto
      with Cons.prems(2) Notify st None have "s' = s2" by simp
      with Cons.IH [OF inv1 rl] show ?thesis by simp
    next
      case (Some e)
      with Cons.prems(2) Notify st have "s' = s1" by (auto split: prod.splits)
      with inv1 show ?thesis by simp
    qed
  qed
qed

lemma initial_remove_untracked:
  "remove_untracked \<lparr>last_event = None, running_processes = []\<rparr>"
  by (simp add: remove_untracked_def)

lemma tracked_not_duplicate_remove:
  assumes "run_loop u \<lparr>last_event = None, running_processes = []\<rparr> ins = (es0, s, r0)"
    and "map_of (running_processes s) node = Some pid"
  shows "last_event s \<noteq> Some (''remove'', node)"
  using run_loop_remove_untracked [OF initial_remove_untracked assms(1)] assms(2)
  by (auto simp add: remove_untracked_def)

text \<open>
  C3, as the spec states it, fails when the shell that was launched has already exited
  while its process group lives on: \<open>kill_cart_process\<close> signals only if \<open>poll\<close> gives
  \<open>None\<close>, so the group gets no signal and the entry is just dropped.
\<close>

theorem exited_shell_group_gets_no_signal:
  "map_of (running_processes tracked_sda) ''/dev/sda'' = Some 101 \<and>
   classify exited_shell_world dev_sda_remove = Inr (Some (''remove'', ''/dev/sda'')) \<and>
   poll exited_shell_world 101 = Some 0 \<and>
   killpg exited_shell_world 101 SIGTERM = None \<and>
   step None tracked_sda dev_sda_remove exited_shell_world =
     ([Print ''SD card removed: /dev/sda''],
      \<lparr>last_event = Some (''remove'', ''/dev/sda''), running_processes = []\<rparr>, None) \<and>
   filter is_killpg (fst (monitor None [Notify dev_sda good_world,
       Notify dev_sda_remove exited_shell_world])) = []"
  by code_simp

text \<open>
  C3, as the code has it: in every state the loop reaches, an effective remove event for a
  device node with a tracked process removes the node from \<open>running_processes\<close>. If the
  tracked process has already exited, nothing is sent and no error is raised. If it is
  still running, SIGTERM is sent to its process group; a group that is already gone
  (ProcessLookupError) is not an error; otherwise the daemon waits 3 seconds for the
  tracked process and sends SIGKILL to the group only if that wait timed out, and a
  delivered SIGKILL ends the iteration without an error.
\<close>

theorem remove_untracks_and_stops_running_process:
  assumes "run_loop u \<lparr>last_event = None, running_processes = []\<rparr> ins = (es0, s, Waiting)"
    and "classify w d = Inr (Some (''remove'', node))"
    and "map_of (running_processes s) node = Some pid"
  shows "\<exists>es s' r. step u s d w = (es, s', r) \<and>
           map_of (running_processes s') node = None \<and>
           (poll w pid \<noteq> None \<longrightarrow> es = [Print (''SD card removed: '' @ node)] \<and> r = None) \<and>
           (poll w pid = None \<and> getpgid w pid = Inr pgid \<longrightarrow>
              take 3 es = [Print (''SD card removed: '' @ node),
                           Print (''Killing process group '' @ show_nat pgid),
                           Killpg pgid SIGTERM] \<and>
              (killpg w pgid SIGTERM = Some ProcessLookupError \<longrightarrow>
                 drop 3 es = [] \<and> r = None) \<and>
              (killpg w pgid SIGTERM = None \<and> wait w pid 3 \<longrightarrow>
                 drop 3 es = [Wait pid 3] \<and> r = None) \<and>
              (killpg w pgid SIGTERM = None \<and> \<not> wait w pid 3 \<longrightarrow>
                 drop 3 es = [Wait pid 3, Killpg pgid SIGKILL] \<and>
                 (killpg w pgid SIGKILL = None \<longrightarrow> r = None)))"
proof -
  have nd: "Some (''remove'', node) \<noteq> last_event s"
    using tracked_not_duplicate_remove [OF assms(1) assms(3)] by auto
  have ni: "''remove'' \<noteq> ''insert''" by simp
  define pre where "pre = [Print (''Killing process group '' @ show_nat pgid), Killpg pgid SIGTERM]"
  define s' where "s' = s\<lparr>last_event := Some (''remove'', node),
         running_processes := AList.delete node (running_processes s)\<rparr>"
  let ?removed = "Print (''SD card removed: '' @ node)"
  have st: "step u s d w = (?removed # fst (kill_cart_process w pid), s',
       snd (kill_cart_process w pid))"
    using assms(2,3) nd ni
    by (simp add: step_def handle_event_def Let_def s'_def split: prod.split del: list.inject)
  have m: "map_of (running_processes s') node = None"
    by (simp add: map_of_delete_same s'_def)
  have ex: "poll w pid \<noteq> None \<longrightarrow>
      ?removed # fst (kill_cart_process w pid) = [?removed] \<and> snd (kill_cart_process w pid) = None"
    by (auto simp add: kill_cart_process_def)
  have run: "poll w pid = None \<and> getpgid w pid = Inr pgid \<longrightarrow>
              take 3 (?removed # fst (kill_cart_process w pid)) =
                [?removed, Print (''Killing process group '' @ show_nat pgid), Killpg pgid SIGTERM] \<and>
              (killpg w pgid SIGTERM = Some ProcessLookupError \<longrightarrow>
                 drop 3 (?removed # fst (kill_cart_process w pid)) = [] \<and>
                 snd (kill_cart_process w pid) = None) \<and>
              (killpg w pgid SIGTERM = None \<and> wait w pid 3 \<longrightarrow>
                 drop 3 (?removed # fst (kill_cart_process w pid)) = [Wait pid 3] \<and>
                 snd (kill_cart_process w pid) = None) \<and>
              (killpg w pgid SIGTERM = None \<and> \<not> wait w pid 3 \<longrightarrow>
                 drop 3 (?removed # fst (kill_cart_process w pid)) =
                   [Wait pid 3, Killpg pgid SIGKILL] \<and>
                 (killpg w pgid SIGKILL = None \<longrightarrow> snd (kill_cart_process w pid) = None))"
  proof
    assume a: "poll w pid = None \<and> getpgid w pid = Inr pgid"
    have k: "kill_cart_process w pid =
      (case killpg w pgid SIGTERM of
         Some e \<Rightarrow> if e = ProcessLookupError then (pre, None) else (pre, Some e)
       | None \<Rightarrow> if wait w pid 3 then (pre @ [Wait pid 3], None)
                 else (pre @ [Wait pid 3, Killpg pgid SIGKILL], killpg w pgid SIGKILL))"
      using a by (simp add: kill_cart_process_def Let_def pre_def split: option.split)
    have t3: "\<And>x xs. take 3 (x # pre @ xs) = x # pre"
      by (simp add: pre_def numeral_3_eq_3)
    have d3: "\<And>x xs. drop 3 (x # pre @ xs) = xs"
      by (simp add: pre_def numeral_3_eq_3)
    have t3': "\<And>x. take 3 (x # pre) = x # pre" using t3 [of _ "[]"] by simp
    have d3': "\<And>x. drop 3 (x # pre) = []" using d3 [of _ "[]"] by simp
    have p: "?removed # pre =
        [?removed, Print (''Killing process group '' @ show_nat pgid), Killpg pgid SIGTERM]"
      by (simp add: pre_def)
    show "take 3 (?removed # fst (kill_cart_process w pid)) =
                [?removed, Print (''Killing process group '' @ show_nat pgid), Killpg pgid SIGTERM] \<and>
              (killpg w pgid SIGTERM = Some ProcessLookupError \<longrightarrow>
                 drop 3 (?removed # fst (kill_cart_process w pid)) = [] \<and>
                 snd (kill_cart_process w pid) = None) \<and>
              (killpg w pgid SIGTERM = None \<and> wait w pid 3 \<longrightarrow>
                 drop 3 (?removed # fst (kill_cart_process w pid)) = [Wait pid 3] \<and>
                 snd (kill_cart_process w pid) = None) \<and>
              (killpg w pgid SIGTERM = None \<and> \<not> wait w pid 3 \<longrightarrow>
                 drop 3 (?removed # fst (kill_cart_process w pid)) =
                   [Wait pid 3, Killpg pgid SIGKILL] \<and>
                 (killpg w pgid SIGKILL = None \<longrightarrow> snd (kill_cart_process w pid) = None))"
    proof (cases "killpg w pgid SIGTERM")
      case None
      show ?thesis
      proof (cases "wait w pid 3")
        case True
        with None k have "kill_cart_process w pid = (pre @ [Wait pid 3], None)" by simp
        with None True t3 d3 p show ?thesis by simp
      next
        case False
        with None k have "kill_cart_process w pid =
            (pre @ [Wait pid 3, Killpg pgid SIGKILL], killpg w pgid SIGKILL)" by simp
        with None False t3 d3 p show ?thesis by simp
      qed
    next
      case (Some e)
      with k have "kill_cart_process w pid = (pre, if e = ProcessLookupError then None else Some e)"
        by simp
      with Some t3' d3' p show ?thesis by simp
    qed
  qed
  show ?thesis
    apply (intro exI conjI)
       apply (rule st)
      apply (rule m)
     apply (rule ex)
    apply (rule run)
    done
qed


theorem remove_untracks_and_stops_running_process_witness:
  "(\<exists>es s' r. step None tracked_sda dev_sda_remove good_world = (es, s', r) \<and>
      map_of (running_processes s') ''/dev/sda'' = None \<and>
      take 3 es = [Print ''SD card removed: /dev/sda'', Print ''Killing process group 101'',
                   Killpg 101 SIGTERM] \<and>
      drop 3 es = [Wait 101 3] \<and> r = None) \<and>
   (\<exists>es s' r. step None tracked_sda dev_sda_remove slow_exit_world = (es, s', r) \<and>
      map_of (running_processes s') ''/dev/sda'' = None \<and>
      drop 3 es = [Wait 101 3, Killpg 101 SIGKILL] \<and> r = None) \<and>
   (\<exists>es s' r. step None tracked_sda dev_sda_remove gone_world = (es, s', r) \<and>
      map_of (running_processes s') ''/dev/sda'' = None \<and>
      drop 3 es = [] \<and> r = None) \<and>
   (\<exists>es s' r. step None tracked_sda dev_sda_remove exited_shell_world = (es, s', r) \<and>
      map_of (running_processes s') ''/dev/sda'' = None \<and>
      es = [Print ''SD card removed: /dev/sda''] \<and> r = None)"
proof -
  have "snd (run_loop None \<lparr>last_event = None, running_processes = []\<rparr>
               [Notify dev_sda good_world]) = (tracked_sda, Waiting)"
    by code_simp
  then have h1: "run_loop None \<lparr>last_event = None, running_processes = []\<rparr>
               [Notify dev_sda good_world] =
          (fst (run_loop None \<lparr>last_event = None, running_processes = []\<rparr>
               [Notify dev_sda good_world]), tracked_sda, Waiting)"
    by (metis prod.collapse)
  have h3: "map_of (running_processes tracked_sda) ''/dev/sda'' = Some 101"
    by (simp add: tracked_sda_def)
  have n: "show_nat 101 = ''101''" by code_simp
  have a2: "classify good_world dev_sda_remove = Inr (Some (''remove'', ''/dev/sda''))"
    by code_simp
  have b2: "classify slow_exit_world dev_sda_remove = Inr (Some (''remove'', ''/dev/sda''))"
    by code_simp
  have c2: "classify gone_world dev_sda_remove = Inr (Some (''remove'', ''/dev/sda''))"
    by code_simp
  have d2: "classify exited_shell_world dev_sda_remove = Inr (Some (''remove'', ''/dev/sda''))"
    by code_simp
  have a: "poll good_world 101 = None" "getpgid good_world 101 = Inr 101"
    "killpg good_world 101 SIGTERM = None" "wait good_world 101 3"
    by (simp_all add: good_world_def)
  have b: "poll slow_exit_world 101 = None" "getpgid slow_exit_world 101 = Inr 101"
    "killpg slow_exit_world 101 SIGTERM = None" "\<not> wait slow_exit_world 101 3"
    "killpg slow_exit_world 101 SIGKILL = None"
    by (simp_all add: good_world_def slow_exit_world_def)
  have c: "poll gone_world 101 = None" "getpgid gone_world 101 = Inr 101"
    "killpg gone_world 101 SIGTERM = Some ProcessLookupError"
    by (simp_all add: good_world_def gone_world_def)
  have d: "poll exited_shell_world 101 = Some 0"
    by (simp add: exited_shell_world_def)
  from remove_untracks_and_stops_running_process [OF h1 a2 h3, of 101] a n
  have A: "\<exists>es s' r. step None tracked_sda dev_sda_remove good_world = (es, s', r) \<and>
      map_of (running_processes s') ''/dev/sda'' = None \<and>
      take 3 es = [Print ''SD card removed: /dev/sda'', Print ''Killing process group 101'',
                   Killpg 101 SIGTERM] \<and>
      drop 3 es = [Wait 101 3] \<and> r = None"
    by (simp del: take_Cons_numeral drop_Cons_numeral)
  from remove_untracks_and_stops_running_process [OF h1 b2 h3, of 101] b
  have B: "\<exists>es s' r. step None tracked_sda dev_sda_remove slow_exit_world = (es, s', r) \<and>
      map_of (running_processes s') ''/dev/sda'' = None \<and>
      drop 3 es = [Wait 101 3, Killpg 101 SIGKILL] \<and> r = None"
    by (simp del: take_Cons_numeral drop_Cons_numeral) blast
  from remove_untracks_and_stops_running_process [OF h1 c2 h3, of 101] c
  have C: "\<exists>es s' r. step None tracked_sda dev_sda_remove gone_world = (es, s', r) \<and>
      map_of (running_processes s') ''/dev/sda'' = None \<and>
      drop 3 es = [] \<and> r = None"
    by (simp del: take_Cons_numeral drop_Cons_numeral) blast
  from remove_untracks_and_stops_running_process [OF h1 d2 h3, of 101] d
  have D: "\<exists>es s' r. step None tracked_sda dev_sda_remove exited_shell_world = (es, s', r) \<and>
      map_of (running_processes s') ''/dev/sda'' = None \<and>
      es = [Print ''SD card removed: /dev/sda''] \<and> r = None"
    by (simp del: take_Cons_numeral drop_Cons_numeral)
  from A B C D show ?thesis by (intro conjI)
qed

subsection \<open>Classification and duplicate suppression\<close>

lemma handle_event_last_event:
  assumes "handle_event u w s ev = (es, s', r)"
  shows "last_event s' = Some ev"
proof (cases "Some ev = last_event s")
  case True
  with assms handle_event_duplicate [of s ev u w] show ?thesis by simp
next
  case False
  show ?thesis
  proof (cases "fst ev = ''insert''")
    case True
    from handle_event_insert_state [OF False True assms] show ?thesis .
  next
    case ni: False
    from handle_event_remove_state [OF False ni assms] show ?thesis by simp
  qed
qed

lemma step_duplicate:
  "classify w d = Inr (Some ev) \<Longrightarrow> last_event s = Some ev \<Longrightarrow> step u s d w = ([], s, None)"
  by (simp add: step_def handle_event_duplicate)

lemma step_last_event:
  "classify w d = Inr (Some ev) \<Longrightarrow> step u s d w = (es, s', r) \<Longrightarrow> last_event s' = Some ev"
  by (simp add: step_def handle_event_last_event)

lemma run_loop_skip_unclassified:
  assumes "list_all (\<lambda>dw. classify (snd dw) (fst dw) = Inr None) junk"
  shows "run_loop u s (map (\<lambda>dw. Notify (fst dw) (snd dw)) junk @ rest) = run_loop u s rest"
  using assms
proof (induction junk)
  case Nil
  then show ?case by simp
next
  case (Cons dw junk)
  then have "step u s (fst dw) (snd dw) = ([], s, None)" by (simp add: step_def)
  with Cons show ?case by simp
qed

lemma verify_popen_count: "filter is_popen (fst (verify_cart_signature w p)) = []"
  by (simp add: verify_cart_signature_def Let_def split: option.split run_result.split)

lemma launch_popen_count:
  "launch w mp u script = (les, lr) \<Longrightarrow> length (filter is_popen les) \<le> Suc 0"
  by (auto simp add: launch_def split: option.splits)

lemma start_popen_count: "length (filter is_popen (fst (start_cart_process w mp u))) \<le> 1"
proof (cases "verify_cart_signature w (path_join mp ''cart.yaml'')")
  case (Pair ves vr)
  then have v: "filter is_popen ves = []"
    using verify_popen_count [of w "path_join mp ''cart.yaml''"] by simp
  show ?thesis
    using Pair v
    by (auto simp add: start_cart_process_def Let_def launch_popen_count
        split: sum.split option.split prod.split)
qed

lemma kill_popen_count: "filter is_popen (fst (kill_cart_process w p)) = []"
  by (simp add: kill_cart_process_def Let_def split: option.split sum.split)

lemma kill_all_popen_count: "filter is_popen (fst (kill_all w ps)) = []"
proof (induction ps)
  case Nil
  then show ?case by simp
next
  case (Cons p ps)
  obtain es r where k: "kill_cart_process w p = (es, r)" by (cases "kill_cart_process w p") auto
  with kill_popen_count [of w p] have "filter is_popen es = []" by simp
  with k Cons show ?case by (cases r) (auto split: prod.split)
qed

lemma on_exception_popen_count: "filter is_popen (fst (on_exception w s e)) = []"
proof -
  obtain es r where k: "kill_all w (map snd (running_processes s)) = (es, r)"
    by (cases "kill_all w (map snd (running_processes s))") auto
  with kill_all_popen_count [of w "map snd (running_processes s)"]
  have "filter is_popen es = []" by simp
  with k show ?thesis by (cases r) (simp_all add: on_exception_def)
qed

lemma handle_event_popen_count:
  "length (filter is_popen (fst (handle_event u w s ev))) \<le> 1"
proof (cases "Some ev = last_event s")
  case True
  then show ?thesis by (simp add: handle_event_def)
next
  case False
  show ?thesis
  proof (cases "fst ev = ''insert''")
    case True
    show ?thesis
    proof (cases "get_mount_point w (snd ev) 5")
      case None
      with False True show ?thesis by (simp add: handle_event_def Let_def)
    next
      case (Some mp)
      obtain ses sr where st: "start_cart_process w mp u = (ses, sr)"
        by (cases "start_cart_process w mp u") auto
      with start_popen_count [of w mp u] have "length (filter is_popen ses) \<le> 1" by simp
      with st Some False True show ?thesis
        by (cases sr) (auto simp add: handle_event_def Let_def split: option.split)
    qed
  next
    case ni: False
    show ?thesis
    proof (cases "map_of (running_processes s) (snd ev)")
      case None
      with False ni show ?thesis by (simp add: handle_event_def Let_def)
    next
      case (Some pid)
      obtain kes kr where k: "kill_cart_process w pid = (kes, kr)"
        by (cases "kill_cart_process w pid") auto
      with kill_popen_count [of w pid] have "filter is_popen kes = []" by simp
      with k Some False ni show ?thesis by (simp add: handle_event_def Let_def)
    qed
  qed
qed

lemma step_popen_count: "length (filter is_popen (fst (step u s d w))) \<le> 1"
  using handle_event_popen_count [of u w s]
  by (simp add: step_def split: sum.split option.split)

lemma single_notification_popen_count:
  "length (filter is_popen (fst (run_loop u s [Notify d w]))) \<le> 1"
proof -
  obtain es s' r where st: "step u s d w = (es, s', r)" by (cases "step u s d w") auto
  with step_popen_count [of u s d w] have c: "length (filter is_popen es) \<le> 1" by simp
  show ?thesis
  proof (cases r)
    case None
    with st c show ?thesis by simp
  next
    case (Some e)
    obtain oes orr where o: "on_exception w s' e = (oes, orr)"
      by (cases "on_exception w s' e") auto
    with on_exception_popen_count [of w s' e] have "filter is_popen oes = []" by simp
    with st c Some o show ?thesis by simp
  qed
qed

text \<open>
  C7: a classified event equal to the classified event before it (notifications that the
  loop skips before classification may lie in between) is discarded: the run with the
  second notification is the run without it. Two such notifications in a row launch at
  most one process.
\<close>

theorem duplicate_event_discarded:
  assumes "classify w1 d1 = Inr (Some ev)"
    and "list_all (\<lambda>dw. classify (snd dw) (fst dw) = Inr None) junk"
    and "classify w2 d2 = Inr (Some ev)"
  shows "run_loop u s (Notify d1 w1 # map (\<lambda>dw. Notify (fst dw) (snd dw)) junk @
                       Notify d2 w2 # rest) =
         run_loop u s (Notify d1 w1 # rest) \<and>
         length (filter is_popen (fst (run_loop u s [Notify d1 w1, Notify d2 w2]))) \<le> 1"
proof -
  obtain es s' r where st: "step u s d1 w1 = (es, s', r)" by (cases "step u s d1 w1") auto
  have le: "last_event s' = Some ev" using step_last_event [OF assms(1) st] .
  have dup: "step u s' d2 w2 = ([], s', None)" using step_duplicate [OF assms(3) le] .
  have skip: "\<And>tl. run_loop u s' (map (\<lambda>dw. Notify (fst dw) (snd dw)) junk @ tl) = run_loop u s' tl"
    using run_loop_skip_unclassified [OF assms(2)] .
  have eq: "\<And>tl. run_loop u s (Notify d1 w1 # map (\<lambda>dw. Notify (fst dw) (snd dw)) junk @
                       Notify d2 w2 # tl) = run_loop u s (Notify d1 w1 # tl)"
    using st dup skip by (cases r) (simp_all split: prod.split)
  from eq [of "[]"] assms(2) have "run_loop u s [Notify d1 w1, Notify d2 w2] = run_loop u s [Notify d1 w1]"
    using st dup by (cases r) (simp_all split: prod.split)
  with single_notification_popen_count [of u s d1 w1] eq [of rest] show ?thesis by simp
qed

theorem duplicate_event_discarded_witness:
  "classify good_world dev_sda = Inr (Some (''insert'', ''/dev/sda'')) \<and>
   classify good_world dev_sda1 = Inr None \<and>
   classify good_world dev_sda_change = Inr (Some (''insert'', ''/dev/sda'')) \<and>
   run_loop None \<lparr>last_event = None, running_processes = []\<rparr>
     [Notify dev_sda good_world, Notify dev_sda1 good_world, Notify dev_sda_change good_world] =
   run_loop None \<lparr>last_event = None, running_processes = []\<rparr> [Notify dev_sda good_world] \<and>
   length (filter is_popen (fst (run_loop None \<lparr>last_event = None, running_processes = []\<rparr>
     [Notify dev_sda good_world, Notify dev_sda_change good_world]))) \<le> 1"
proof -
  have a: "classify good_world dev_sda = Inr (Some (''insert'', ''/dev/sda''))" by code_simp
  have b: "classify good_world dev_sda1 = Inr None" by code_simp
  have c: "classify good_world dev_sda_change = Inr (Some (''insert'', ''/dev/sda''))"
    by code_simp
  have j: "list_all (\<lambda>dw. classify (snd dw) (fst dw) = Inr None) [(dev_sda1, good_world)]"
    using b by simp
  from duplicate_event_discarded [OF a j c, of None
      "\<lparr>last_event = None, running_processes = []\<rparr>" "[]"] a b c
  show ?thesis by simp
qed

text \<open>
  C8: for a change notification on a qualifying device the effective action is decided by
  \<open>has_media\<close> alone: insert when it is true, remove when it is false. A notification
  whose action is none of add, remove and change is ignored: the iteration has no effect and
  leaves the state as it is.
\<close>

theorem change_classified_by_has_media:
  "(is_sd_card w1 d1 \<and> action d1 = ''change'' \<longrightarrow>
      (\<exists>node m. device_node d1 = Some node \<and> has_media w1 d1 = Inr m \<and>
         classify w1 d1 = Inr (Some (if m then ''insert'' else ''remove'', node)))) \<and>
   (is_sd_card w2 d2 \<and> action d2 \<noteq> ''add'' \<and> action d2 \<noteq> ''remove'' \<and>
    action d2 \<noteq> ''change'' \<longrightarrow>
      classify w2 d2 = Inr None \<and> step u s d2 w2 = ([], s, None))"
proof (intro conjI impI)
  assume a: "is_sd_card w1 d1 \<and> action d1 = ''change''"
  then obtain node where n: "device_node d1 = Some node"
    by (auto simp add: is_sd_card_def split: option.splits)
  have "\<not> isl (has_media w1 d1)"
    using n by (simp add: has_media_def split: option.split)
  then obtain m where m: "has_media w1 d1 = Inr m"
    by (cases "has_media w1 d1") auto
  have ne: "''change'' \<noteq> ''add''" "''change'' \<noteq> ''remove''" by simp_all
  from a n m ne have "classify w1 d1 = Inr (Some (if m then ''insert'' else ''remove'', node))"
    by (simp add: classify_def del: list.inject)
  with n m show "\<exists>node m. device_node d1 = Some node \<and> has_media w1 d1 = Inr m \<and>
         classify w1 d1 = Inr (Some (if m then ''insert'' else ''remove'', node))"
    by blast
next
  assume a: "is_sd_card w2 d2 \<and> action d2 \<noteq> ''add'' \<and> action d2 \<noteq> ''remove'' \<and>
    action d2 \<noteq> ''change''"
  then show c: "classify w2 d2 = Inr None"
    by (simp add: classify_def split: option.split)
  then show "step u s d2 w2 = ([], s, None)" by (simp add: step_def)
qed

theorem change_classified_by_has_media_witness:
  "is_sd_card good_world dev_sda_change \<and> action dev_sda_change = ''change'' \<and>
   has_media good_world dev_sda_change = Inr True \<and>
   classify good_world dev_sda_change = Inr (Some (''insert'', ''/dev/sda'')) \<and>
   is_sd_card empty_slot_world dev_sda_empty_change \<and>
   has_media empty_slot_world dev_sda_empty_change = Inr False \<and>
   classify empty_slot_world dev_sda_empty_change = Inr (Some (''remove'', ''/dev/sda'')) \<and>
   is_sd_card good_world dev_sda_bind \<and> action dev_sda_bind = ''bind'' \<and>
   step None tracked_sda dev_sda_bind good_world = ([], tracked_sda, None)"
proof -
  have a: "is_sd_card good_world dev_sda_change" "action dev_sda_change = ''change''"
    "has_media good_world dev_sda_change = Inr True"
    "device_node dev_sda_change = Some ''/dev/sda''"
    by code_simp+
  have b: "is_sd_card empty_slot_world dev_sda_empty_change"
    "action dev_sda_empty_change = ''change''"
    "has_media empty_slot_world dev_sda_empty_change = Inr False"
    "device_node dev_sda_empty_change = Some ''/dev/sda''"
    by code_simp+
  have c: "is_sd_card good_world dev_sda_bind" "action dev_sda_bind = ''bind''"
    "action dev_sda_bind \<noteq> ''add''" "action dev_sda_bind \<noteq> ''remove''"
    "action dev_sda_bind \<noteq> ''change''"
    by code_simp+
  from change_classified_by_has_media [of good_world dev_sda_change good_world dev_sda_bind
      None tracked_sda] a c
  have A: "classify good_world dev_sda_change = Inr (Some (''insert'', ''/dev/sda''))"
    and C: "step None tracked_sda dev_sda_bind good_world = ([], tracked_sda, None)"
    by auto
  from change_classified_by_has_media [of empty_slot_world dev_sda_empty_change good_world
      dev_sda_bind None tracked_sda] b
  have B: "classify empty_slot_world dev_sda_empty_change = Inr (Some (''remove'', ''/dev/sda''))"
    by auto
  from a b c A B C show ?thesis by simp
qed

subsection \<open>The command that is executed\<close>

lemma verify_trusted:
  assumes "path_exists w (p @ ''.sig'')" and "path_exists w TRUSTED_PUBKEY"
    and "open_rb w p = Some verified"
    and "ssh_keygen w (verify_argv (p @ ''.sig'')) verified = Exit 0"
  shows "verify_cart_signature w p =
           ([CheckCall (verify_argv (p @ ''.sig'')) verified, Print ''Signature verification OK''],
            Inr True)"
  using assms by (simp add: verify_cart_signature_def Let_def)

lemma start_after_trusted:
  assumes "path_exists w (path_join mp ''cart.yaml'')"
    and "verify_cart_signature w (path_join mp ''cart.yaml'') = (ves, Inr True)"
    and "open_r w (path_join mp ''cart.yaml'') = Some parsed"
    and "safe_load w parsed = Some config"
    and "truthy config" and "in_config ''exec'' config = Inr True"
    and "getitem config ''exec'' = Inr script"
  shows "start_cart_process w mp u =
           (Print (''Found cart.yaml at '' @ path_join mp ''cart.yaml'') # ves @
              fst (launch w mp u script), snd (launch w mp u script))"
  using assms by (simp add: start_cart_process_def Let_def split: prod.split)

text \<open>
  C10: the verifier is given the bytes of the first read of cart.yaml, and the command that
  is launched is the \<open>exec\<close> entry of what a second read of the file returns. Nothing
  relates the two reads: when the first read is accepted by the verifier, the only
  \<open>CheckCall\<close> of \<open>start_cart_process\<close> has the first content on its standard input and
  the only \<open>Popen\<close> runs the command parsed from the second content, whatever the verifier
  would say about that content.
\<close>

theorem command_read_after_verification:
  assumes "path_exists w (path_join mp ''cart.yaml'')"
    and "path_exists w (path_join mp ''cart.yaml'' @ ''.sig'')"
    and "path_exists w TRUSTED_PUBKEY"
    and "open_rb w (path_join mp ''cart.yaml'') = Some verified"
    and "ssh_keygen w (verify_argv (path_join mp ''cart.yaml'' @ ''.sig'')) verified = Exit 0"
    and "open_r w (path_join mp ''cart.yaml'') = Some parsed"
    and "safe_load w parsed = Some (YMap m)"
    and "map_of m (YStr ''exec'') = Some script"
  shows "filter is_check_call (fst (start_cart_process w mp u)) =
           [CheckCall (verify_argv (path_join mp ''cart.yaml'' @ ''.sig'')) verified] \<and>
         filter is_popen (fst (start_cart_process w mp u)) =
           (case truthy_user u of
              None \<Rightarrow> [Popen script mp None (environ w)]
            | Some name \<Rightarrow>
                (case getpwnam w name of
                   None \<Rightarrow> []
                 | Some pw \<Rightarrow>
                     [Popen script mp (Some (pw_uid pw, pw_gid pw)) (user_env w name pw)]))"
proof -
  have t: "truthy (YMap m)" using assms(8) by auto
  have i: "in_config ''exec'' (YMap m) = Inr True" using assms(8) by simp
  have g: "getitem (YMap m) ''exec'' = Inr script" using assms(8) by simp
  have st: "start_cart_process w mp u =
      (Print (''Found cart.yaml at '' @ path_join mp ''cart.yaml'') #
       [CheckCall (verify_argv (path_join mp ''cart.yaml'' @ ''.sig'')) verified,
        Print ''Signature verification OK''] @ fst (launch w mp u script),
       snd (launch w mp u script))"
    using start_after_trusted [OF assms(1) verify_trusted [OF assms(2,3,4,5)] assms(6,7) t i g] .
  have lc: "filter is_check_call (fst (launch w mp u script)) = []"
    by (simp add: launch_def split: option.split)
  have lp: "filter is_popen (fst (launch w mp u script)) =
           (case truthy_user u of
              None \<Rightarrow> [Popen script mp None (environ w)]
            | Some name \<Rightarrow>
                (case getpwnam w name of
                   None \<Rightarrow> []
                 | Some pw \<Rightarrow>
                     [Popen script mp (Some (pw_uid pw, pw_gid pw)) (user_env w name pw)]))"
    by (simp add: launch_def split: option.split)
  show ?thesis unfolding st using lc lp by simp
qed

theorem command_read_after_verification_witness:
  "open_rb swapped_world ''/mnt/a/cart.yaml'' = Some ''exec: run.sh'' \<and>
   open_r swapped_world ''/mnt/a/cart.yaml'' = Some ''exec: evil.sh'' \<and>
   ssh_keygen swapped_world (verify_argv ''/mnt/a/cart.yaml.sig'') ''exec: evil.sh'' = Exit 255 \<and>
   filter is_check_call (fst (start_cart_process swapped_world ''/mnt/a'' None)) =
     [CheckCall (verify_argv ''/mnt/a/cart.yaml.sig'') ''exec: run.sh''] \<and>
   filter is_popen (fst (start_cart_process swapped_world ''/mnt/a'' None)) =
     [Popen (YStr ''evil.sh'') ''/mnt/a'' None [(''PATH'', ''/usr/bin'')]]"
proof -
  have p: "path_join ''/mnt/a'' ''cart.yaml'' = ''/mnt/a/cart.yaml''"
    by (simp add: path_join_def)
  have a: "path_exists swapped_world ''/mnt/a/cart.yaml''"
    "path_exists swapped_world (''/mnt/a/cart.yaml'' @ ''.sig'')"
    "path_exists swapped_world TRUSTED_PUBKEY"
    "open_rb swapped_world ''/mnt/a/cart.yaml'' = Some ''exec: run.sh''"
    "ssh_keygen swapped_world (verify_argv (''/mnt/a/cart.yaml'' @ ''.sig'')) ''exec: run.sh'' = Exit 0"
    "open_r swapped_world ''/mnt/a/cart.yaml'' = Some ''exec: evil.sh''"
    "safe_load swapped_world ''exec: evil.sh'' = Some (YMap [(YStr ''exec'', YStr ''evil.sh'')])"
    "map_of [(YStr ''exec'', YStr ''evil.sh'')] (YStr ''exec'') = Some (YStr ''evil.sh'')"
    by (simp_all add: swapped_world_def good_world_def)
  have b: "ssh_keygen swapped_world (verify_argv ''/mnt/a/cart.yaml.sig'') ''exec: evil.sh'' = Exit 255"
    by (simp add: swapped_world_def good_world_def)
  have c: "environ swapped_world = [(''PATH'', ''/usr/bin'')]"
    by (simp add: swapped_world_def good_world_def)
  from command_read_after_verification [of swapped_world "''/mnt/a''", unfolded p, OF a, of None]
    a(4,6) b c
  show ?thesis by (simp add: truthy_user_def)
qed

subsection \<open>Runs in which the daemon loses or abandons a process\<close>

text \<open>
  C2: the run add /dev/sda, add /dev/sdb, change /dev/sda (media present). The second
  insert of /dev/sda is not a duplicate of the event before it, so a second process is
  launched in /mnt/a with no signal sent to the first (pid 101, still running);
  \<open>running_processes\<close> then maps /dev/sda to pid 103 only. A later removal of /dev/sda and
  an interrupt signal the groups 103 and 102, never 101.
\<close>

theorem reinsert_leaves_untracked_process:
  "filter (\<lambda>e. is_popen e \<or> is_killpg e) (fst (monitor None reinsert_inputs)) =
     [Popen (YStr ''run.sh'') ''/mnt/a'' None [(''PATH'', ''/usr/bin'')],
      Popen (YStr ''run.sh'') ''/mnt/b'' None [(''PATH'', ''/usr/bin'')],
      Popen (YStr ''run.sh'') ''/mnt/a'' None [(''PATH'', ''/usr/bin'')]] \<and>
   running_processes (fst (snd (monitor None (take 1 reinsert_inputs)))) =
     [(''/dev/sda'', 101)] \<and>
   running_processes (fst (snd (monitor None reinsert_inputs))) =
     [(''/dev/sda'', 103), (''/dev/sdb'', 102)] \<and>
   filter is_killpg (fst (monitor None (reinsert_inputs @
       [Notify dev_sda_remove good_world, PollRaises KeyboardInterrupt good_world]))) =
     [Killpg 103 SIGTERM, Killpg 102 SIGTERM]"
  by code_simp

text \<open>
  C4: the run in which the verifier cannot be started for the first card. \<open>check_call\<close>
  raises OSError, which \<open>verify_cart_signature\<close> does not catch: no verdict is returned,
  no reason is printed, the error leaves the loop and the second notification is never
  handled.
\<close>

theorem verifier_not_runnable_stops_daemon:
  "monitor None [Notify dev_sda no_verifier_world, Notify dev_sdb good_world] =
     ([Print ''Monitoring for SD cards... (Ctrl+C to exit)'',
       Print ''SD card inserted: /dev/sda'',
       Print ''Found cart.yaml at /mnt/a/cart.yaml'',
       CheckCall (verify_argv ''/mnt/a/cart.yaml.sig'') ''exec: run.sh''],
      \<lparr>last_event = Some (''insert'', ''/dev/sda''), running_processes = []\<rparr>,
      Raised OSError)"
  by code_simp

text \<open>
  C9: the run in which the notification source raises OSError while pid 101 is tracked and
  running. The loop's only handler is for KeyboardInterrupt, so \<open>monitor\<close> ends with the
  error and no signal is sent: pid 101 is still tracked and was never killed. On
  KeyboardInterrupt the tracked process group does get SIGTERM.
\<close>

theorem bus_failure_leaves_processes_running:
  "snd (monitor None [Notify dev_sda good_world, PollRaises OSError good_world]) =
     (\<lparr>last_event = Some (''insert'', ''/dev/sda''), running_processes = [(''/dev/sda'', 101)]\<rparr>,
      Raised OSError) \<and>
   filter is_killpg (fst (monitor None [Notify dev_sda good_world, PollRaises OSError good_world])) = [] \<and>
   exit_status (snd (snd (monitor None [Notify dev_sda good_world,
       PollRaises OSError good_world]))) = Some 1 \<and>
   poll good_world 101 = None \<and>
   filter is_killpg (fst (monitor None [Notify dev_sda good_world,
       PollRaises KeyboardInterrupt good_world])) = [Killpg 101 SIGTERM]"
  by code_simp

subsection \<open>Errors that leave the loop\<close>

text \<open>
  C5, as the spec states it, fails on the run with the unknown account \<open>ghost\<close>: the
  lookup error of the first card ends
  \<open>monitor\<close>, and the notification of the second card changes nothing.
\<close>

theorem unknown_user_stops_daemon:
  "snd (monitor (Some ''ghost'') [Notify dev_sda good_world, Notify dev_sdb good_world]) =
     (\<lparr>last_event = Some (''insert'', ''/dev/sda''), running_processes = []\<rparr>, Raised KeyError) \<and>
   monitor (Some ''ghost'') [Notify dev_sda good_world, Notify dev_sdb good_world] =
   monitor (Some ''ghost'') [Notify dev_sda good_world]"
  by code_simp

text \<open>
  C6, as the spec states it, fails on the run with a signed cart.yaml that the YAML parser
  rejects: the parser's error ends
  \<open>monitor\<close>, and the notification of the second card changes nothing.
\<close>

theorem malformed_manifest_stops_daemon:
  "snd (monitor None [Notify dev_sda bad_yaml_world, Notify dev_sdb good_world]) =
     (\<lparr>last_event = Some (''insert'', ''/dev/sda''), running_processes = []\<rparr>, Raised YAMLError) \<and>
   monitor None [Notify dev_sda bad_yaml_world, Notify dev_sdb good_world] =
   monitor None [Notify dev_sda bad_yaml_world]"
  by code_simp

lemma launch_unknown_user:
  assumes "truthy_user u = Some name" and "getpwnam w name = None"
  shows "launch w mp u script = ([], Inl KeyError)"
  using assms by (simp add: launch_def)

lemma start_cart_process_shape:
  "(\<exists>es r. \<not> list_ex is_popen es \<and> (\<forall>u. start_cart_process w mp u = (es, r))) \<or>
   (\<exists>pre script. \<not> list_ex is_popen pre \<and>
      (\<forall>u. start_cart_process w mp u =
             (pre @ fst (launch w mp u script), snd (launch w mp u script))))"
proof -
  let ?cart = "path_join mp ''cart.yaml''"
  let ?found = "Print (''Found cart.yaml at '' @ ?cart)"
  let ?early = "\<exists>es r. \<not> list_ex is_popen es \<and> (\<forall>u. start_cart_process w mp u = (es, r))"
  obtain ves vr where v: "verify_cart_signature w ?cart = (ves, vr)"
    by (cases "verify_cart_signature w ?cart") auto
  have np: "\<not> list_ex is_popen ves"
    using verify_effects_no_popen [of w ?cart] v by simp
  have E: "\<And>es r. \<not> list_ex is_popen es \<Longrightarrow> \<forall>u. start_cart_process w mp u = (es, r) \<Longrightarrow> ?early"
    by blast
  show ?thesis
  proof (cases "path_exists w ?cart")
    case False
    then have "\<forall>u. start_cart_process w mp u = ([Print ''No cart.yaml detected''], Inr None)"
      by (simp add: start_cart_process_def)
    then have ?early by (intro E) simp_all
    then show ?thesis ..
  next
    case ex: True
    show ?thesis
    proof (cases vr)
      case (Inl e)
      with ex v have "\<forall>u. start_cart_process w mp u = (?found # ves, Inl e)"
        by (simp add: start_cart_process_def)
      then have ?early using np by (intro E) simp_all
      then show ?thesis ..
    next
      case (Inr trusted)
      show ?thesis
      proof (cases trusted)
        case False
        with ex v Inr have "\<forall>u. start_cart_process w mp u =
            (?found # ves @ [Print ''Execution blocked (untrusted cart)''], Inr None)"
          by (simp add: start_cart_process_def)
        then have ?early using np by (intro E) simp_all
        then show ?thesis ..
      next
        case True
        with v Inr have vt: "verify_cart_signature w ?cart = (ves, Inr True)" by simp
        show ?thesis
        proof (cases "open_r w ?cart")
          case None
          with ex vt have "\<forall>u. start_cart_process w mp u = (?found # ves, Inl OSError)"
            by (simp add: start_cart_process_def)
          then have ?early using np by (intro E) simp_all
          then show ?thesis ..
        next
          case (Some content)
          note rd = Some
          show ?thesis
          proof (cases "safe_load w content")
            case None
            with ex vt rd have "\<forall>u. start_cart_process w mp u = (?found # ves, Inl YAMLError)"
              by (simp add: start_cart_process_def)
            then have ?early using np by (intro E) simp_all
            then show ?thesis ..
          next
            case (Some config)
            note ld = Some
            show ?thesis
            proof (cases "truthy config")
              case False
              with ex vt rd ld have "\<forall>u. start_cart_process w mp u =
                  (?found # ves @ [Print no_exec_msg], Inr None)"
                by (simp add: start_cart_process_def)
              then have ?early using np by (intro E) simp_all
              then show ?thesis ..
            next
              case tr: True
              show ?thesis
              proof (cases "in_config ''exec'' config")
                case (Inl e)
                with ex vt rd ld tr have "\<forall>u. start_cart_process w mp u = (?found # ves, Inl e)"
                  by (simp add: start_cart_process_def)
                then have ?early using np by (intro E) simp_all
                then show ?thesis ..
              next
                case (Inr present)
                note pr = Inr
                show ?thesis
                proof (cases present)
                  case False
                  with ex vt rd ld tr pr have "\<forall>u. start_cart_process w mp u =
                      (?found # ves @ [Print no_exec_msg], Inr None)"
                    by (simp add: start_cart_process_def)
                  then have ?early using np by (intro E) simp_all
                  then show ?thesis ..
                next
                  case True
                  with pr have pt: "in_config ''exec'' config = Inr True" by simp
                  show ?thesis
                  proof (cases "getitem config ''exec''")
                    case (Inl e)
                    with ex vt rd ld tr pt have "\<forall>u. start_cart_process w mp u = (?found # ves, Inl e)"
                      by (simp add: start_cart_process_def)
                    then have ?early using np by (intro E) simp_all
                    then show ?thesis ..
                  next
                    case (Inr script)
                    have "\<forall>u. start_cart_process w mp u =
                        ((?found # ves) @ fst (launch w mp u script), snd (launch w mp u script))"
                      using start_after_trusted [OF ex vt rd ld tr pt Inr] by simp
                    moreover have "\<not> list_ex is_popen (?found # ves)" using np by simp
                    ultimately show ?thesis by blast
                  qed
                qed
              qed
            qed
          qed
        qed
      qed
    qed
  qed
qed

lemma run_loop_insert_raises:
  assumes "classify w d = Inr (Some (''insert'', node))"
    and "last_event s \<noteq> Some (''insert'', node)"
    and "get_mount_point w node 5 = Some mp" and "mp \<noteq> []"
    and "start_cart_process w mp u = (es, Inl e)" and "e \<noteq> KeyboardInterrupt"
  shows "run_loop u s (Notify d w # rest) =
           (Print (''SD card inserted: '' @ node) # es,
            s\<lparr>last_event := Some (''insert'', node)\<rparr>, Raised e)"
proof -
  have nd: "Some (''insert'', node) \<noteq> last_event s" using assms(2) by auto
  have "step u s d w = (Print (''SD card inserted: '' @ node) # es,
            s\<lparr>last_event := Some (''insert'', node)\<rparr>, Some e)"
    using assms(1,3,4,5) nd by (simp add: step_def handle_event_def Let_def)
  then show ?thesis using assms(6) by (simp add: on_exception_def)
qed

text \<open>
  C5, as the code has it: when the configured account is unknown to the password database, no
  process is launched under any identity. A card that would have been launched without a
  configured account makes \<open>start_cart_process\<close> raise KeyError instead, and this error
  is not handled in the loop: it ends the loop, so later notifications are not processed.
\<close>

theorem unknown_user_aborts_spawn:
  assumes "truthy_user u = Some name" and "getpwnam w name = None"
  shows "\<not> list_ex is_popen (fst (start_cart_process w mp u)) \<and>
         (list_ex is_popen (fst (start_cart_process w mp None)) \<longrightarrow>
            snd (start_cart_process w mp u) = Inl KeyError) \<and>
         (snd (start_cart_process w mp u) = Inl KeyError \<and>
          classify w d = Inr (Some (''insert'', node)) \<and>
          last_event s \<noteq> Some (''insert'', node) \<and>
          get_mount_point w node 5 = Some mp \<and> mp \<noteq> [] \<longrightarrow>
            snd (snd (run_loop u s (Notify d w # rest))) = Raised KeyError \<and>
            \<not> list_ex is_popen (fst (run_loop u s (Notify d w # rest))))"
proof -
  have l: "\<And>script. launch w mp u script = ([], Inl KeyError)"
    using launch_unknown_user [OF assms] .
  have c12: "\<not> list_ex is_popen (fst (start_cart_process w mp u)) \<and>
         (list_ex is_popen (fst (start_cart_process w mp None)) \<longrightarrow>
            snd (start_cart_process w mp u) = Inl KeyError)"
    using start_cart_process_shape [of w mp]
  proof
    assume "\<exists>es r. \<not> list_ex is_popen es \<and> (\<forall>u. start_cart_process w mp u = (es, r))"
    then show ?thesis by auto
  next
    assume "\<exists>pre script. \<not> list_ex is_popen pre \<and>
      (\<forall>u. start_cart_process w mp u =
             (pre @ fst (launch w mp u script), snd (launch w mp u script)))"
    then obtain pre script where "\<not> list_ex is_popen pre"
      and "\<forall>u. start_cart_process w mp u =
             (pre @ fst (launch w mp u script), snd (launch w mp u script))"
      by blast
    then show ?thesis using l [of script] by simp
  qed
  have c3: "snd (start_cart_process w mp u) = Inl KeyError \<and>
          classify w d = Inr (Some (''insert'', node)) \<and>
          last_event s \<noteq> Some (''insert'', node) \<and>
          get_mount_point w node 5 = Some mp \<and> mp \<noteq> [] \<longrightarrow>
            snd (snd (run_loop u s (Notify d w # rest))) = Raised KeyError \<and>
            \<not> list_ex is_popen (fst (run_loop u s (Notify d w # rest)))"
  proof
    assume a: "snd (start_cart_process w mp u) = Inl KeyError \<and>
          classify w d = Inr (Some (''insert'', node)) \<and>
          last_event s \<noteq> Some (''insert'', node) \<and>
          get_mount_point w node 5 = Some mp \<and> mp \<noteq> []"
    obtain es where st: "start_cart_process w mp u = (es, Inl KeyError)"
      using a by (cases "start_cart_process w mp u") auto
    have np: "\<not> list_ex is_popen es" using c12 st by simp
    have "run_loop u s (Notify d w # rest) =
           (Print (''SD card inserted: '' @ node) # es,
            s\<lparr>last_event := Some (''insert'', node)\<rparr>, Raised KeyError)"
      using a by (intro run_loop_insert_raises [OF _ _ _ _ st]) simp_all
    with np show "snd (snd (run_loop u s (Notify d w # rest))) = Raised KeyError \<and>
            \<not> list_ex is_popen (fst (run_loop u s (Notify d w # rest)))"
      by simp
  qed
  from c12 c3 show ?thesis by blast
qed

theorem unknown_user_aborts_spawn_witness:
  "truthy_user (Some ''ghost'') = Some ''ghost'' \<and> getpwnam good_world ''ghost'' = None \<and>
   list_ex is_popen (fst (start_cart_process good_world ''/mnt/a'' None)) \<and>
   \<not> list_ex is_popen (fst (start_cart_process good_world ''/mnt/a'' (Some ''ghost''))) \<and>
   snd (start_cart_process good_world ''/mnt/a'' (Some ''ghost'')) = Inl KeyError \<and>
   snd (snd (run_loop (Some ''ghost'') \<lparr>last_event = None, running_processes = []\<rparr>
               [Notify dev_sda good_world, Notify dev_sdb good_world])) = Raised KeyError \<and>
   \<not> list_ex is_popen (fst (run_loop (Some ''ghost'') \<lparr>last_event = None, running_processes = []\<rparr>
               [Notify dev_sda good_world, Notify dev_sdb good_world]))"
proof -
  have a: "truthy_user (Some ''ghost'') = Some ''ghost''" by (simp add: truthy_user_def)
  have b: "getpwnam good_world ''ghost'' = None" by (simp add: good_world_def)
  have c: "list_ex is_popen (fst (start_cart_process good_world ''/mnt/a'' None))" by code_simp
  have d: "classify good_world dev_sda = Inr (Some (''insert'', ''/dev/sda''))" by code_simp
  have e: "last_event \<lparr>last_event = None, running_processes = []\<rparr> \<noteq> Some (''insert'', ''/dev/sda'')"
    by simp
  have f: "get_mount_point good_world ''/dev/sda'' 5 = Some ''/mnt/a''" by code_simp
  have g: "''/mnt/a'' \<noteq> []" by simp
  from unknown_user_aborts_spawn [OF a b, of "''/mnt/a''" dev_sda "''/dev/sda''"
      "\<lparr>last_event = None, running_processes = []\<rparr>" "[Notify dev_sdb good_world]"]
    a b c d e f g
  show ?thesis by blast
qed

text \<open>
  C6, as the code has it: without a cart.yaml, \<open>start_cart_process\<close> prints \<open>No cart.yaml detected\<close>
  and returns \<open>None\<close>. A verified cart.yaml that parses to an empty (falsy) document, or
  to a mapping, sequence or string that does not contain \<open>exec\<close>, prints the missing
  \<open>exec\<close> message and returns \<open>None\<close>. A verified cart.yaml that the parser rejects
  makes \<open>start_cart_process\<close> raise the parser's error. Whenever \<open>start_cart_process\<close>
  returns \<open>None\<close>, the iteration of the loop ends without an error and without a change
  of \<open>running_processes\<close>.
\<close>

theorem manifest_without_exec_skipped:
  "(\<not> path_exists w1 (path_join mp1 ''cart.yaml'') \<longrightarrow>
      start_cart_process w1 mp1 u1 = ([Print ''No cart.yaml detected''], Inr None)) \<and>
   (path_exists w2 (path_join mp2 ''cart.yaml'') \<and>
    verify_cart_signature w2 (path_join mp2 ''cart.yaml'') = (ves2, Inr True) \<and>
    open_r w2 (path_join mp2 ''cart.yaml'') = Some content2 \<and>
    safe_load w2 content2 = Some config \<and>
    (\<not> truthy config \<or> in_config ''exec'' config = Inr False) \<longrightarrow>
      start_cart_process w2 mp2 u2 =
        (Print (''Found cart.yaml at '' @ path_join mp2 ''cart.yaml'') # ves2 @
           [Print no_exec_msg], Inr None)) \<and>
   (path_exists w3 (path_join mp3 ''cart.yaml'') \<and>
    verify_cart_signature w3 (path_join mp3 ''cart.yaml'') = (ves3, Inr True) \<and>
    open_r w3 (path_join mp3 ''cart.yaml'') = Some content3 \<and>
    safe_load w3 content3 = None \<longrightarrow>
      start_cart_process w3 mp3 u3 =
        (Print (''Found cart.yaml at '' @ path_join mp3 ''cart.yaml'') # ves3, Inl YAMLError)) \<and>
   (classify w4 d = Inr (Some (''insert'', node)) \<and>
    get_mount_point w4 node 5 = Some mp4 \<and>
    snd (start_cart_process w4 mp4 u4) = Inr None \<longrightarrow>
      snd (snd (step u4 s d w4)) = None \<and>
      running_processes (fst (snd (step u4 s d w4))) = running_processes s)"
proof (intro conjI impI)
  assume "\<not> path_exists w1 (path_join mp1 ''cart.yaml'')"
  then show "start_cart_process w1 mp1 u1 = ([Print ''No cart.yaml detected''], Inr None)"
    by (simp add: start_cart_process_def)
next
  assume "path_exists w2 (path_join mp2 ''cart.yaml'') \<and>
    verify_cart_signature w2 (path_join mp2 ''cart.yaml'') = (ves2, Inr True) \<and>
    open_r w2 (path_join mp2 ''cart.yaml'') = Some content2 \<and>
    safe_load w2 content2 = Some config \<and>
    (\<not> truthy config \<or> in_config ''exec'' config = Inr False)"
  then show "start_cart_process w2 mp2 u2 =
        (Print (''Found cart.yaml at '' @ path_join mp2 ''cart.yaml'') # ves2 @
           [Print no_exec_msg], Inr None)"
    by (auto simp add: start_cart_process_def Let_def)
next
  assume "path_exists w3 (path_join mp3 ''cart.yaml'') \<and>
    verify_cart_signature w3 (path_join mp3 ''cart.yaml'') = (ves3, Inr True) \<and>
    open_r w3 (path_join mp3 ''cart.yaml'') = Some content3 \<and>
    safe_load w3 content3 = None"
  then show "start_cart_process w3 mp3 u3 =
        (Print (''Found cart.yaml at '' @ path_join mp3 ''cart.yaml'') # ves3, Inl YAMLError)"
    by (simp add: start_cart_process_def)
next
  assume a: "classify w4 d = Inr (Some (''insert'', node)) \<and>
    get_mount_point w4 node 5 = Some mp4 \<and>
    snd (start_cart_process w4 mp4 u4) = Inr None"
  then obtain es where st: "start_cart_process w4 mp4 u4 = (es, Inr None)"
    by (cases "start_cart_process w4 mp4 u4") auto
  with a have "snd (snd (step u4 s d w4)) = None \<and>
      running_processes (fst (snd (step u4 s d w4))) = running_processes s"
    by (simp add: step_def handle_event_def Let_def)
  then show "snd (snd (step u4 s d w4)) = None"
    and "running_processes (fst (snd (step u4 s d w4))) = running_processes s" by simp_all
qed

theorem manifest_without_exec_skipped_witness:
  "\<not> path_exists no_cart_world (path_join ''/mnt/a'' ''cart.yaml'') \<and>
   start_cart_process no_cart_world ''/mnt/a'' None = ([Print ''No cart.yaml detected''], Inr None) \<and>
   in_config ''exec'' (YMap [(YStr ''title'', YStr ''demo'')]) = Inr False \<and>
   start_cart_process no_exec_world ''/mnt/a'' None =
     ([Print ''Found cart.yaml at /mnt/a/cart.yaml'',
       CheckCall (verify_argv ''/mnt/a/cart.yaml.sig'') ''title: demo'',
       Print ''Signature verification OK'', Print no_exec_msg], Inr None) \<and>
   safe_load bad_yaml_world ''exec: ['' = None \<and>
   start_cart_process bad_yaml_world ''/mnt/a'' None =
     ([Print ''Found cart.yaml at /mnt/a/cart.yaml'',
       CheckCall (verify_argv ''/mnt/a/cart.yaml.sig'') ''exec: ['',
       Print ''Signature verification OK''], Inl YAMLError) \<and>
   snd (snd (step None \<lparr>last_event = None, running_processes = []\<rparr> dev_sda no_exec_world)) = None"
proof -
  have p: "path_join ''/mnt/a'' ''cart.yaml'' = ''/mnt/a/cart.yaml''"
    by (simp add: path_join_def)
  have a: "\<not> path_exists no_cart_world ''/mnt/a/cart.yaml''"
    by (simp add: no_cart_world_def)
  have b: "path_exists no_exec_world ''/mnt/a/cart.yaml''"
    "verify_cart_signature no_exec_world ''/mnt/a/cart.yaml'' =
        ([CheckCall (verify_argv ''/mnt/a/cart.yaml.sig'') ''title: demo'',
          Print ''Signature verification OK''], Inr True)"
    "open_r no_exec_world ''/mnt/a/cart.yaml'' = Some ''title: demo''"
    "safe_load no_exec_world ''title: demo'' = Some (YMap [(YStr ''title'', YStr ''demo'')])"
    "in_config ''exec'' (YMap [(YStr ''title'', YStr ''demo'')]) = Inr False"
    by (simp_all add: no_exec_world_def good_world_def verify_cart_signature_def)
  have c: "path_exists bad_yaml_world ''/mnt/a/cart.yaml''"
    "verify_cart_signature bad_yaml_world ''/mnt/a/cart.yaml'' =
        ([CheckCall (verify_argv ''/mnt/a/cart.yaml.sig'') ''exec: ['',
          Print ''Signature verification OK''], Inr True)"
    "open_r bad_yaml_world ''/mnt/a/cart.yaml'' = Some ''exec: [''"
    "safe_load bad_yaml_world ''exec: ['' = None"
    by (simp_all add: bad_yaml_world_def good_world_def verify_cart_signature_def)
  have d: "classify no_exec_world dev_sda = Inr (Some (''insert'', ''/dev/sda''))" by code_simp
  have e: "get_mount_point no_exec_world ''/dev/sda'' 5 = Some ''/mnt/a''" by code_simp
  note t = manifest_without_exec_skipped [where ?w1.0 = no_cart_world and ?mp1.0 = "''/mnt/a''"
      and ?u1.0 = None and ?w2.0 = no_exec_world and ?mp2.0 = "''/mnt/a''" and ?u2.0 = None
      and ?w3.0 = bad_yaml_world and ?mp3.0 = "''/mnt/a''" and ?u3.0 = None
      and ?w4.0 = no_exec_world and ?mp4.0 = "''/mnt/a''" and ?u4.0 = None
      and d = dev_sda and node = "''/dev/sda''"
      and s = "\<lparr>last_event = None, running_processes = []\<rparr>"
      and config = "YMap [(YStr ''title'', YStr ''demo'')]"
      and ?content2.0 = "''title: demo''" and ?content3.0 = "''exec: [''"
      and ?ves2.0 = "[CheckCall (verify_argv ''/mnt/a/cart.yaml.sig'') ''title: demo'',
          Print ''Signature verification OK'']"
      and ?ves3.0 = "[CheckCall (verify_argv ''/mnt/a/cart.yaml.sig'') ''exec: ['',
          Print ''Signature verification OK'']", unfolded p]
  have A: "start_cart_process no_cart_world ''/mnt/a'' None = ([Print ''No cart.yaml detected''], Inr None)"
    using t a by blast
  have B: "start_cart_process no_exec_world ''/mnt/a'' None =
     ([Print ''Found cart.yaml at /mnt/a/cart.yaml'',
       CheckCall (verify_argv ''/mnt/a/cart.yaml.sig'') ''title: demo'',
       Print ''Signature verification OK'', Print no_exec_msg], Inr None)"
    using t b by simp
  have C: "start_cart_process bad_yaml_world ''/mnt/a'' None =
     ([Print ''Found cart.yaml at /mnt/a/cart.yaml'',
       CheckCall (verify_argv ''/mnt/a/cart.yaml.sig'') ''exec: ['',
       Print ''Signature verification OK''], Inl YAMLError)"
    using t c by simp
  have D: "snd (snd (step None \<lparr>last_event = None, running_processes = []\<rparr> dev_sda no_exec_world)) = None"
    using t d e B by simp
  from a A b(5) B c(4) C D show ?thesis unfolding p by simp
qed

text \<open>
  In the loop, a verified manifest that the parser rejects ends the run with the parser's
  error, whatever notifications follow.
\<close>

lemma parse_failure_ends_loop:
  assumes "classify w d = Inr (Some (''insert'', node))"
    and "last_event s \<noteq> Some (''insert'', node)"
    and "get_mount_point w node 5 = Some mp" and "mp \<noteq> []"
    and "path_exists w (path_join mp ''cart.yaml'')"
    and "verify_cart_signature w (path_join mp ''cart.yaml'') = (ves, Inr True)"
    and "open_r w (path_join mp ''cart.yaml'') = Some content"
    and "safe_load w content = None"
  shows "run_loop u s (Notify d w # rest) =
           (Print (''SD card inserted: '' @ node) #
            Print (''Found cart.yaml at '' @ path_join mp ''cart.yaml'') # ves,
            s\<lparr>last_event := Some (''insert'', node)\<rparr>, Raised YAMLError)"
proof -
  have "start_cart_process w mp u =
      (Print (''Found cart.yaml at '' @ path_join mp ''cart.yaml'') # ves, Inl YAMLError)"
    using assms(5-8) by (simp add: start_cart_process_def)
  from run_loop_insert_raises [OF assms(1-4) this] show ?thesis by simp
qed

subsection \<open>Trust failures that are handled\<close>

text \<open>
  The three trust failures that \<open>verify_cart_signature\<close> handles each print a reason of
  their own and give the verdict \<open>False\<close>; the iteration of the loop then ends without an
  error and without a change of \<open>running_processes\<close>.
\<close>

lemma verify_signature_missing:
  "\<not> path_exists w (p @ ''.sig'') \<Longrightarrow>
     verify_cart_signature w p = ([Print ''ERROR: cart.yaml.sig missing''], Inr False)"
  by (simp add: verify_cart_signature_def)

lemma verify_pubkey_missing:
  "path_exists w (p @ ''.sig'') \<Longrightarrow> \<not> path_exists w TRUSTED_PUBKEY \<Longrightarrow>
     verify_cart_signature w p = ([Print ''ERROR: Trusted public key missing''], Inr False)"
  by (simp add: verify_cart_signature_def)

lemma verify_rejected:
  "path_exists w (p @ ''.sig'') \<Longrightarrow> path_exists w TRUSTED_PUBKEY \<Longrightarrow>
   open_rb w p = Some bytes \<Longrightarrow> ssh_keygen w (verify_argv (p @ ''.sig'')) bytes = Exit rc \<Longrightarrow>
   rc \<noteq> 0 \<Longrightarrow>
     verify_cart_signature w p =
       ([CheckCall (verify_argv (p @ ''.sig'')) bytes,
         Print ''ERROR: Signature verification FAILED''], Inr False)"
  by (simp add: verify_cart_signature_def)

lemma untrusted_insert_is_not_fatal:
  assumes "classify w d = Inr (Some (''insert'', node))"
    and "get_mount_point w node 5 = Some mp"
    and "snd (verify_cart_signature w (path_join mp ''cart.yaml'')) = Inr False"
  shows "snd (snd (step u s d w)) = None"
    and "running_processes (fst (snd (step u s d w))) = running_processes s"
proof -
  obtain es where st: "start_cart_process w mp u = (es, Inr None)"
    using start_untrusted(1) [OF assms(3), of u] by (cases "start_cart_process w mp u") auto
  with assms(1,2) show "snd (snd (step u s d w)) = None"
    and "running_processes (fst (snd (step u s d w))) = running_processes s"
    by (simp_all add: step_def handle_event_def Let_def)
qed

subsection \<open>Shutdown on the interrupt signal\<close>

text \<open>
  When the notification source raises KeyboardInterrupt and every tracked process is
  running and can be signalled, each tracked process group is sent SIGTERM, in the order
  of \<open>running_processes\<close>, and \<open>monitor\<close> returns.
\<close>

lemma kill_running_sigterm:
  assumes "poll w pid = None" and "getpgid w pid = Inr pgid"
    and "killpg w pgid SIGTERM = None"
    and "wait w pid 3 \<or> killpg w pgid SIGKILL = None"
  shows "snd (kill_cart_process w pid) = None \<and>
         filter is_sigterm (fst (kill_cart_process w pid)) = [Killpg pgid SIGTERM]"
  using assms by (auto simp add: kill_cart_process_def Let_def)

lemma kill_all_signals_every_process:
  assumes "list_all (\<lambda>pid. poll w pid = None \<and> getpgid w pid = Inr (g pid) \<and>
             killpg w (g pid) SIGTERM = None \<and>
             (wait w pid 3 \<or> killpg w (g pid) SIGKILL = None)) pids"
  shows "snd (kill_all w pids) = None \<and>
         filter is_sigterm (fst (kill_all w pids)) = map (\<lambda>pid. Killpg (g pid) SIGTERM) pids"
  using assms
proof (induction pids)
  case Nil
  then show ?case by simp
next
  case (Cons p ps)
  obtain es r where k: "kill_cart_process w p = (es, r)" by (cases "kill_cart_process w p") auto
  from Cons.prems have "poll w p = None" "getpgid w p = Inr (g p)"
    "killpg w (g p) SIGTERM = None" "wait w p 3 \<or> killpg w (g p) SIGKILL = None"
    by simp_all
  from kill_running_sigterm [OF this] k
  have r: "r = None" and f: "filter is_sigterm es = [Killpg (g p) SIGTERM]" by simp_all
  obtain es' r' where ka: "kill_all w ps = (es', r')" by (cases "kill_all w ps") auto
  from Cons.IH Cons.prems ka
  have "r' = None" and "filter is_sigterm es' = map (\<lambda>pid. Killpg (g pid) SIGTERM) ps"
    by simp_all
  with k r f ka show ?case by simp
qed

lemma interrupt_kills_every_tracked_process:
  assumes "list_all (\<lambda>pid. poll w pid = None \<and> getpgid w pid = Inr (g pid) \<and>
             killpg w (g pid) SIGTERM = None \<and>
             (wait w pid 3 \<or> killpg w (g pid) SIGKILL = None))
           (map snd (running_processes s))"
  shows "snd (run_loop u s (PollRaises KeyboardInterrupt w # rest)) = (s, Returned) \<and>
         filter is_sigterm (fst (run_loop u s (PollRaises KeyboardInterrupt w # rest))) =
           map (\<lambda>pid. Killpg (g pid) SIGTERM) (map snd (running_processes s))"
proof -
  obtain es r where ka: "kill_all w (map snd (running_processes s)) = (es, r)"
    by (cases "kill_all w (map snd (running_processes s))") auto
  from kill_all_signals_every_process [OF assms] ka
  have "r = None"
    and "filter is_sigterm es = map (\<lambda>pid. Killpg (g pid) SIGTERM) (map snd (running_processes s))"
    by simp_all
  with ka show ?thesis by (simp add: on_exception_def)
qed

end
